theory Spec2Isabelle
  imports Main
begin

section \<open>JavaScript values\<close>

text \<open>
  The adapter of \<^verbatim>\<open>server/mongo/src/storage.ts\<close> builds filters, update documents and
  pipelines out of plain JavaScript values. A value is modelled as a tree; an object is
  the list of its own properties in the order in which the engine enumerates them
  (\<^verbatim>\<open>Object.keys\<close>, \<^verbatim>\<open>for ... in\<close>, spread). References (\<^verbatim>\<open>Ref<T>\<close>) and domains are
  strings, timestamps are numbers.

  An object the caller passes, a document of the store and an object literal have the
  prototype every object starts with: \<open>JObj\<close>. An assignment under the key
  \<^verbatim>\<open>__proto__\<close> can give an object built here another prototype, an object or
  \<^verbatim>\<open>null\<close>: \<open>JProto\<close>, with the prototype first. Values have no identity in the model.
\<close>

datatype jv =
    JUndefined
  | JNull
  | JBool bool
  | JNum int
  | JStr string
  | JArr "jv list"
  | JObj "(string \<times> jv) list"
  | JProto jv "(string \<times> jv) list"

type_synonym jobject = "(string \<times> jv) list"

text \<open>The exception the translation itself can raise is a TypeError: a property read on
  \<^verbatim>\<open>undefined\<close> or \<^verbatim>\<open>null\<close>, or a call of a method the value does not have. The other
  errors are those the driver and the model cache report.\<close>

datatype error = TypeError | StoreError

text \<open>\<^verbatim>\<open>o[k]\<close> on an object: the property's value, \<^verbatim>\<open>undefined\<close> when there is none.\<close>

definition obj_prop :: "jobject \<Rightarrow> string \<Rightarrow> jv" where
  "obj_prop kvs k = (case map_of kvs k of None \<Rightarrow> JUndefined | Some v \<Rightarrow> v)"

text \<open>Defining an own property, as an object literal, a spread and an assignment under
  a key other than \<^verbatim>\<open>__proto__\<close> do: an existing property keeps its place, a new one is
  enumerated last (as the engine does for every key that is not an array index; the keys
  this code writes are field names, operator names and class identifiers). The
  assignment \<^verbatim>\<open>o[k] = v\<close> with a key that may be \<^verbatim>\<open>__proto__\<close> is \<open>assign\<close> below.\<close>

fun obj_set :: "jobject \<Rightarrow> string \<Rightarrow> jv \<Rightarrow> jobject" where
  "obj_set [] k v = [(k, v)]"
| "obj_set ((k', v') # kvs) k v =
     (if k' = k then (k, v) # kvs else (k', v') # obj_set kvs k v)"

text \<open>Decimal rendering of an array index, as in the keys of an array or a string.\<close>

definition digit_char :: "nat \<Rightarrow> char" where
  "digit_char d = char_of (48 + d)"

fun string_of_nat :: "nat \<Rightarrow> string" where
  "string_of_nat n =
     (if n < 10 then [digit_char n] else string_of_nat (n div 10) @ [digit_char (n mod 10)])"

definition index_keys :: "nat \<Rightarrow> string list" where
  "index_keys n = map string_of_nat [0..<n]"

text \<open>\<^verbatim>\<open>Object.keys(v)\<close> for a value that is neither \<^verbatim>\<open>undefined\<close> nor \<^verbatim>\<open>null\<close>.\<close>

fun own_keys :: "jv \<Rightarrow> string list" where
  "own_keys (JObj kvs) = map fst kvs"
| "own_keys (JProto p kvs) = map fst kvs"
| "own_keys (JArr xs) = index_keys (length xs)"
| "own_keys (JStr s) = index_keys (length s)"
| "own_keys _ = []"

text \<open>\<^verbatim>\<open>Object.keys(v)\<close>: a TypeError on \<^verbatim>\<open>undefined\<close> and \<^verbatim>\<open>null\<close>.\<close>

fun Object_keys :: "jv \<Rightarrow> error + string list" where
  "Object_keys JUndefined = Inl TypeError"
| "Object_keys JNull = Inl TypeError"
| "Object_keys v = Inr (own_keys v)"

text \<open>\<^verbatim>\<open>keys[0]\<close>: \<^verbatim>\<open>undefined\<close> on an empty array of keys.\<close>

fun first_key :: "string list \<Rightarrow> string option" where
  "first_key [] = None"
| "first_key (k # ks) = Some k"

text \<open>A key used as a property name: \<^verbatim>\<open>undefined\<close> is converted to the string
  \<^verbatim>\<open>"undefined"\<close>, in \<^verbatim>\<open>o[undefined]\<close> as in \<^verbatim>\<open>s + undefined\<close>.\<close>

fun key_string :: "string option \<Rightarrow> string" where
  "key_string None = ''undefined''"
| "key_string (Some k) = k"

definition index_of_key :: "nat \<Rightarrow> string \<Rightarrow> nat option" where
  "index_of_key n k = find (\<lambda>i. string_of_nat i = k) [0..<n]"

text \<open>\<^verbatim>\<open>v[k]\<close> and \<^verbatim>\<open>v.k\<close> on any value: a TypeError on \<^verbatim>\<open>undefined\<close> and \<^verbatim>\<open>null\<close>; own
  properties otherwise (elements and \<^verbatim>\<open>length\<close> of arrays and strings), then those of
  the prototype an assignment has set, \<^verbatim>\<open>undefined\<close> for a missing one. The members of
  the built-in prototypes (\<^verbatim>\<open>toString\<close>, \<^verbatim>\<open>constructor\<close>, the getter of \<^verbatim>\<open>__proto__\<close>) are
  not values of this model: the properties below are stated for reads of own
  properties.\<close>

fun js_get :: "jv \<Rightarrow> string \<Rightarrow> error + jv" where
  "js_get JUndefined k = Inl TypeError"
| "js_get JNull k = Inl TypeError"
| "js_get (JObj kvs) k = Inr (obj_prop kvs k)"
| "js_get (JProto p kvs) k =
     (case map_of kvs k of
        Some v \<Rightarrow> Inr v
      | None \<Rightarrow> (if p = JNull then Inr JUndefined else js_get p k))"
| "js_get (JArr xs) k =
     Inr (if k = ''length'' then JNum (int (length xs))
          else (case index_of_key (length xs) k of
                  None \<Rightarrow> JUndefined
                | Some i \<Rightarrow> xs ! i))"
| "js_get (JStr s) k =
     Inr (if k = ''length'' then JNum (int (length s))
          else (case index_of_key (length s) k of
                  None \<Rightarrow> JUndefined
                | Some i \<Rightarrow> JStr [s ! i]))"
| "js_get (JBool b) k = Inr JUndefined"
| "js_get (JNum n) k = Inr JUndefined"

text \<open>\<^verbatim>\<open>s.startsWith(p)\<close>.\<close>

definition startsWith :: "string \<Rightarrow> string \<Rightarrow> bool" where
  "startsWith s p = (take (length p) s = p)"

text \<open>\<^verbatim>\<open>s.split(c)\<close> for a one-character separator: never empty, one more part than
  there are separators.\<close>

fun split_acc :: "char \<Rightarrow> string \<Rightarrow> string \<Rightarrow> string list" where
  "split_acc c cur [] = [rev cur]"
| "split_acc c cur (x # xs) =
     (if x = c then rev cur # split_acc c [] xs else split_acc c (x # cur) xs)"

definition split :: "string \<Rightarrow> char \<Rightarrow> string list" where
  "split s c = split_acc c [] s"

text \<open>\<^verbatim>\<open>parts.join(sep)\<close>.\<close>

fun join :: "string list \<Rightarrow> string \<Rightarrow> string" where
  "join [] sep = []"
| "join [p] sep = p"
| "join (p # q # ps) sep = p @ sep @ join (q # ps) sep"

text \<open>Sequencing of steps that may throw.\<close>

fun andThen :: "error + 'a \<Rightarrow> ('a \<Rightarrow> error + 'b) \<Rightarrow> error + 'b" where
  "andThen (Inl e) f = Inl e"
| "andThen (Inr x) f = f x"

section \<open>Objects built by assignment\<close>

text \<open>
  The filter, the sort document and the lookup sub-map start as \<^verbatim>\<open>{}\<close> and are filled
  by assignments \<^verbatim>\<open>o[k] = v\<close> under keys the caller chooses. Such an object is its
  prototype, \<open>None\<close> for the one it starts with, and its own properties.
\<close>

record built =
  proto :: "jv option"
  own :: jobject

definition empty_object :: built where
  "empty_object = \<lparr>proto = None, own = []\<rparr>"

text \<open>\<^verbatim>\<open>typeof v === 'object'\<close>: objects, arrays and \<^verbatim>\<open>null\<close>.\<close>

fun typeof_object :: "jv \<Rightarrow> bool" where
  "typeof_object (JObj kvs) = True"
| "typeof_object (JProto p kvs) = True"
| "typeof_object (JArr xs) = True"
| "typeof_object JNull = True"
| "typeof_object _ = False"

text \<open>Looking \<^verbatim>\<open>__proto__\<close> up along a chain of prototypes ends at the accessor every
  object inherits, unless the chain ends at \<^verbatim>\<open>null\<close> or an object on it has a property
  of that name (an object parsed from JSON can).\<close>

fun setter_reached :: "jv \<Rightarrow> bool" where
  "setter_reached JNull = False"
| "setter_reached (JObj kvs) = (map_of kvs ''__proto__'' = None)"
| "setter_reached (JProto p kvs) = (map_of kvs ''__proto__'' = None \<and> setter_reached p)"
| "setter_reached _ = True"

text \<open>\<^verbatim>\<open>o[k] = v\<close>. Under \<^verbatim>\<open>__proto__\<close>, when the object has no property of that name and
  the accessor is reached, the setter runs: it makes an object or \<^verbatim>\<open>null\<close> the prototype
  and ignores any other value; no property is written. Every other assignment defines
  or updates an own property.\<close>

definition assign :: "built \<Rightarrow> string \<Rightarrow> jv \<Rightarrow> built" where
  "assign b k v =
     (if k = ''__proto__'' \<and> map_of (own b) k = None \<and>
         (case proto b of None \<Rightarrow> True | Some p \<Rightarrow> setter_reached p)
      then (if typeof_object v then b\<lparr>proto := Some v\<rparr> else b)
      else b\<lparr>own := obj_set (own b) k v\<rparr>)"

text \<open>The object as a value, and back.\<close>

definition value_of :: "built \<Rightarrow> jv" where
  "value_of b = (case proto b of None \<Rightarrow> JObj (own b) | Some p \<Rightarrow> JProto p (own b))"

fun built_of :: "jv \<Rightarrow> built option" where
  "built_of (JObj kvs) = Some \<lparr>proto = None, own = kvs\<rparr>"
| "built_of (JProto p kvs) = Some \<lparr>proto = Some p, own = kvs\<rparr>"
| "built_of _ = None"

section \<open>The collaborators\<close>

text \<open>
  The class hierarchy, the model cache and the constants of \<^verbatim>\<open>@anticrm/core\<close> are
  imported by the file, not defined in it: they are parameters of the translation.
\<close>

record env =
  getBaseClass :: "string \<Rightarrow> string"
  getDescendants :: "string \<Rightarrow> string list"
  getDomain :: "string \<Rightarrow> string"
  DOMAIN_MODEL :: string
  isOperator :: "jobject \<Rightarrow> bool"
  Ascending :: jv
  getObject :: "jv \<Rightarrow> error + jv"

section \<open>The query translator\<close>

text \<open>The body of the loop of \<^verbatim>\<open>translateQuery\<close> for one value: a non-null value of type
  object whose first key is \<^verbatim>\<open>$like\<close> becomes a regular expression; \<^verbatim>\<open>pattern.split\<close> is
  a method of strings only.\<close>

definition like_regex :: "string \<Rightarrow> string" where
  "like_regex pattern = ''^'' @ join (split pattern CHR ''%'') ''.*'' @ ''$''"

definition translate_value :: "jv \<Rightarrow> error + jv" where
  "translate_value v =
     (if v \<noteq> JNull \<and> typeof_object v \<and> first_key (own_keys v) = Some ''$like''
      then (case js_get v ''$like'' of
              Inr (JStr pattern) \<Rightarrow>
                Inr (JObj [(''$regex'', JStr (like_regex pattern)), (''$options'', JStr ''i'')])
            | _ \<Rightarrow> Inl TypeError)
      else Inr v)"

text \<open>\<^verbatim>\<open>for (const key in query)\<close>, reading \<^verbatim>\<open>query[key]\<close> and writing
  \<^verbatim>\<open>translated[key]\<close>.\<close>

fun translate_loop :: "jobject \<Rightarrow> string list \<Rightarrow> built \<Rightarrow> error + built" where
  "translate_loop query [] translated = Inr translated"
| "translate_loop query (key # keys) translated =
     (case translate_value (obj_prop query key) of
        Inl e \<Rightarrow> Inl e
      | Inr v \<Rightarrow> translate_loop query keys (assign translated key v))"

text \<open>\<^verbatim>\<open>translated._class?.$in\<close>, read on the object and along its prototype.\<close>

definition class_in :: "jv \<Rightarrow> jv" where
  "class_in translated =
     (case js_get translated ''_class'' of
        Inl e \<Rightarrow> JUndefined
      | Inr c \<Rightarrow> (case js_get c ''$in'' of Inl e \<Rightarrow> JUndefined | Inr v \<Rightarrow> v))"

text \<open>\<^verbatim>\<open>translateQuery\<close> returns the object \<^verbatim>\<open>translated\<close>.\<close>

definition translateQuery :: "env \<Rightarrow> string \<Rightarrow> jobject \<Rightarrow> error + jv" where
  "translateQuery h clazz query =
     (case translate_loop query (map fst query) empty_object of
        Inl e \<Rightarrow> Inl e
      | Inr translated \<Rightarrow>
          (let baseClass = getBaseClass h clazz;
               classes = getDescendants h baseClass;
               translated1 =
                 (if class_in (value_of translated) = JUndefined
                  then assign translated ''_class'' (JObj [(''$in'', JArr (map JStr classes))])
                  else translated);
               translated2 =
                 (if baseClass \<noteq> clazz
                  then assign translated1 clazz (JObj [(''$exists'', JBool True)])
                  else translated1)
           in Inr (value_of translated2)))"

section \<open>Lookups\<close>

record FindOptions =
  opt_lookup :: "(string \<times> string) list option"
  opt_sort :: "jobject option"
  opt_limit :: "int option"

text \<open>\<^verbatim>\<open>for (const key in o)\<close> with \<^verbatim>\<open>o[key]\<close>: the keys in order, each with its value.\<close>

definition for_in :: "(string \<times> 'a) list \<Rightarrow> (string \<times> 'a) list" where
  "for_in obj =
     concat (map (\<lambda>k. case map_of obj k of None \<Rightarrow> [] | Some v \<Rightarrow> [(k, v)]) (map fst obj))"

text \<open>The join stages of the pipeline: one for each entry whose class is not stored in
  the model domain.\<close>

definition join_stage :: "string \<Rightarrow> string \<Rightarrow> jv" where
  "join_stage domain key =
     JObj [(''$lookup'', JObj [
       (''from'', JStr domain),
       (''localField'', JStr key),
       (''foreignField'', JStr ''_id''),
       (''as'', JStr (key @ ''_lookup''))])]"

fun lookup_stages :: "env \<Rightarrow> (string \<times> string) list \<Rightarrow> jv list" where
  "lookup_stages h [] = []"
| "lookup_stages h ((key, clazz) # rest) =
     (let domain = getDomain h clazz
      in if domain \<noteq> DOMAIN_MODEL h
         then join_stage domain key # lookup_stages h rest
         else lookup_stages h rest)"

text \<open>\<^verbatim>\<open>s.replace(pat, rep)\<close> with a string pattern: the first occurrence only.\<close>

fun replace_first :: "string \<Rightarrow> string \<Rightarrow> string \<Rightarrow> string" where
  "replace_first [] pat rep = (if pat = [] then rep else [])"
| "replace_first (c # cs) pat rep =
     (if startsWith (c # cs) pat then rep @ drop (length pat) (c # cs)
      else c # replace_first cs pat rep)"

definition lookup_sort_key :: "string \<Rightarrow> string" where
  "lookup_sort_key k =
     (if startsWith k ''$lookup.''
      then (case split (replace_first k ''$lookup.'' []) CHR ''.'' of
              [] \<Rightarrow> []
            | k0 # ks \<Rightarrow> join ((k0 @ ''_lookup'') # ks) ''.'')
      else k)"

definition sort_order :: "env \<Rightarrow> jv \<Rightarrow> jv" where
  "sort_order h v = (if v = Ascending h then JNum 1 else JNum (- 1))"

fun sort_loop :: "env \<Rightarrow> (string \<Rightarrow> string) \<Rightarrow> (string \<times> jv) list \<Rightarrow> built \<Rightarrow> built" where
  "sort_loop h f [] sorting = sorting"
| "sort_loop h f ((k, v) # rest) sorting =
     sort_loop h f rest (assign sorting (f k) (sort_order h v))"

definition lookup_pipeline ::
  "env \<Rightarrow> string \<Rightarrow> jobject \<Rightarrow> FindOptions \<Rightarrow> error + jv list" where
  "lookup_pipeline h clazz query options =
     (case translateQuery h clazz query of
        Inl e \<Rightarrow> Inl e
      | Inr translated \<Rightarrow>
          Inr ([JObj [(''$match'', translated)]]
               @ (case opt_lookup options of
                    None \<Rightarrow> []
                  | Some lookups \<Rightarrow> lookup_stages h (for_in lookups))
               @ (case opt_sort options of
                    None \<Rightarrow> []
                  | Some srt \<Rightarrow>
                      [JObj [(''$sort'',
                         value_of (sort_loop h lookup_sort_key (for_in srt) empty_object))]])
               @ (case opt_limit options of
                    None \<Rightarrow> []
                  | Some n \<Rightarrow> [JObj [(''$limit'', JNum n)]])))"

text \<open>\<^verbatim>\<open>object.$lookup[key] = v\<close>; \<^verbatim>\<open>object.$lookup\<close> is the object assigned before the
  loop, and the row keeps it under \<^verbatim>\<open>$lookup\<close>.\<close>

definition set_lookup :: "jobject \<Rightarrow> string \<Rightarrow> jv \<Rightarrow> error + jobject" where
  "set_lookup object k v =
     (case built_of (obj_prop object ''$lookup'') of
        Some sub \<Rightarrow> Inr (obj_set object ''$lookup'' (value_of (assign sub k v)))
      | None \<Rightarrow> Inl TypeError)"

fun shape_loop :: "env \<Rightarrow> (string \<times> string) list \<Rightarrow> jobject \<Rightarrow> error + jobject" where
  "shape_loop h [] object = Inr object"
| "shape_loop h ((key, clazz) # rest) object =
     (let domain = getDomain h clazz
      in if domain \<noteq> DOMAIN_MODEL h
         then (let arr = obj_prop object (key @ ''_lookup'')
               in andThen (js_get arr ''0'') (\<lambda>first.
                  andThen (set_lookup object key first) (shape_loop h rest)))
         else andThen (getObject h (obj_prop object key)) (\<lambda>found.
              andThen (set_lookup object key found) (shape_loop h rest)))"

definition shape_row :: "env \<Rightarrow> (string \<times> string) list \<Rightarrow> jobject \<Rightarrow> error + jobject" where
  "shape_row h lookups row = shape_loop h (for_in lookups) (obj_set row ''$lookup'' (JObj []))"

fun shape_rows :: "env \<Rightarrow> (string \<times> string) list \<Rightarrow> jobject list \<Rightarrow> error + jobject list" where
  "shape_rows h lookups [] = Inr []"
| "shape_rows h lookups (row # rows) =
     andThen (shape_row h lookups row) (\<lambda>r.
     andThen (shape_rows h lookups rows) (\<lambda>rs. Inr (r # rs)))"

text \<open>\<^verbatim>\<open>lookup\<close>: the aggregation is the driver's; \<^verbatim>\<open>aggregate\<close> stands for
  \<^verbatim>\<open>db.collection(domain).aggregate(pipeline).toArray()\<close>.\<close>

definition lookup ::
  "env \<Rightarrow> (string \<Rightarrow> jv list \<Rightarrow> error + jobject list) \<Rightarrow>
   string \<Rightarrow> jobject \<Rightarrow> FindOptions \<Rightarrow> error + jobject list" where
  "lookup h aggregate clazz query options =
     andThen (lookup_pipeline h clazz query options) (\<lambda>pipeline.
     andThen (aggregate (getDomain h clazz) pipeline) (\<lambda>result.
       shape_rows h (case opt_lookup options of None \<Rightarrow> [] | Some lookups \<Rightarrow> lookups) result))"


section \<open>The mutation translator\<close>

text \<open>The transactions, with the fields the adapter reads.\<close>

record Tx =
  objectId :: string
  objectClass :: string
  modifiedBy :: string
  modifiedOn :: int

record TxUpdateDoc = Tx +
  operations :: jobject
  retrieve :: "bool option"

record TxMixin = Tx +
  mixin :: string
  attributes :: jobject

record TxPutBag = Tx +
  bag :: string
  key :: string
  value' :: jv

text \<open>
  Each handler makes one call of the driver on the collection of a domain and computes
  its \<^verbatim>\<open>TxResult\<close> from the driver's answer: the empty object, the answer itself, or
  \<^verbatim>\<open>{ object: result.value }\<close>. (\<^verbatim>\<open>txCreateDoc\<close> inserts the document that
  \<^verbatim>\<open>TxProcessor.createDoc2Doc\<close> of \<^verbatim>\<open>@anticrm/core\<close> builds; it is not modelled.)
\<close>

datatype native_op =
    UpdateOne jv jv
  | DeleteOne jv
  | BulkWrite jv
  | FindOneAndUpdate jv jv jv

datatype reply = Empty_result | Driver_result | Object_of_value

record store_call =
  collection :: string
  operation :: native_op
  reply :: reply

fun tx_result :: "reply \<Rightarrow> jv \<Rightarrow> error + jv" where
  "tx_result Empty_result r = Inr (JObj [])"
| "tx_result Driver_result r = Inr r"
| "tx_result Object_of_value r =
     (case js_get r ''value'' of Inl e \<Rightarrow> Inl e | Inr v \<Rightarrow> Inr (JObj [(''object'', v)]))"

definition id_filter :: "string \<Rightarrow> jv" where
  "id_filter oid = JObj [(''_id'', JStr oid)]"

definition txPutBag :: "env \<Rightarrow> TxPutBag \<Rightarrow> error + store_call" where
  "txPutBag h tx =
     (let domain = getDomain h (objectClass tx)
      in Inr \<lparr>collection = domain,
              operation = UpdateOne (id_filter (objectId tx))
                (JObj [(''$set'', JObj [(bag tx @ ''.'' @ key tx, value' tx)])]),
              reply = Empty_result\<rparr>)"

definition txRemoveDoc :: "env \<Rightarrow> Tx \<Rightarrow> error + store_call" where
  "txRemoveDoc h tx =
     (let domain = getDomain h (objectClass tx)
      in Inr \<lparr>collection = domain,
              operation = DeleteOne (id_filter (objectId tx)),
              reply = Empty_result\<rparr>)"

text \<open>The two operations of the \<^verbatim>\<open>$move\<close> emulation, as both handlers write them.\<close>

definition move_ops :: "string \<Rightarrow> string \<Rightarrow> int \<Rightarrow> string \<Rightarrow> jv \<Rightarrow> jv \<Rightarrow> jv" where
  "move_ops oid by on arr v pos =
     JArr [
       JObj [(''updateOne'', JObj [
         (''filter'', id_filter oid),
         (''update'', JObj [(''$pull'', JObj [(arr, v)])])])],
       JObj [(''updateOne'', JObj [
         (''filter'', id_filter oid),
         (''update'', JObj [
            (''$set'', JObj [(''modifiedBy'', JStr by), (''modifiedOn'', JNum on)]),
            (''$push'', JObj [(arr, JObj [(''$each'', JArr [v]), (''$position'', pos)])])])])]]"

text \<open>\<^verbatim>\<open>translateMixinAttrs\<close>: the loop over \<^verbatim>\<open>Object.entries(attributes)\<close>, then the
  placeholder when there was no entry. The keys of an array or of a string are decimal
  indices, none of which starts with \<^verbatim>\<open>$\<close>: their entries take the second branch. The
  keys written to \<^verbatim>\<open>attrs\<close> start with \<^verbatim>\<open>$\<close> or have a dot: none is \<^verbatim>\<open>__proto__\<close>, and each
  assignment defines an own property.\<close>

definition index_entries :: "'a list \<Rightarrow> (string \<times> 'a) list" where
  "index_entries xs = zip (index_keys (length xs)) xs"

fun plain_loop :: "string \<Rightarrow> (string \<times> jv) list \<Rightarrow> jobject \<Rightarrow> jobject" where
  "plain_loop m [] attrs = attrs"
| "plain_loop m ((k, v) # es) attrs = plain_loop m es (obj_set attrs (m @ ''.'' @ k) v)"

definition placeholder :: "string \<Rightarrow> nat \<Rightarrow> jobject \<Rightarrow> jobject" where
  "placeholder m count attrs =
     (if count = 0 then obj_set attrs (m @ ''.'' @ ''__mixin'') (JStr ''true'') else attrs)"

fun translateMixinAttrs :: "string \<Rightarrow> jv \<Rightarrow> error + jobject"
  and mixin_loop :: "string \<Rightarrow> (string \<times> jv) list \<Rightarrow> jobject \<Rightarrow> error + jobject"
where
  "translateMixinAttrs m JUndefined = Inl TypeError"
| "translateMixinAttrs m JNull = Inl TypeError"
| "translateMixinAttrs m (JBool b) = Inr (placeholder m 0 [])"
| "translateMixinAttrs m (JNum n) = Inr (placeholder m 0 [])"
| "translateMixinAttrs m (JStr s) =
     Inr (placeholder m (length s) (plain_loop m (index_entries (map (\<lambda>c. JStr [c]) s)) []))"
| "translateMixinAttrs m (JArr xs) =
     Inr (placeholder m (length xs) (plain_loop m (index_entries xs) []))"
| "translateMixinAttrs m (JObj kvs) =
     andThen (mixin_loop m kvs []) (\<lambda>attrs. Inr (placeholder m (length kvs) attrs))"
| "translateMixinAttrs m (JProto p kvs) =
     andThen (mixin_loop m kvs []) (\<lambda>attrs. Inr (placeholder m (length kvs) attrs))"
| "mixin_loop m [] attrs = Inr attrs"
| "mixin_loop m ((k, v) # es) attrs =
     (if startsWith k ''$''
      then andThen (translateMixinAttrs m v) (\<lambda>a. mixin_loop m es (obj_set attrs k (JObj a)))
      else mixin_loop m es (obj_set attrs (m @ ''.'' @ k) v))"

definition stamp :: "string \<Rightarrow> int \<Rightarrow> jobject" where
  "stamp by on = [(''modifiedBy'', JStr by), (''modifiedOn'', JNum on)]"

definition txMixin :: "env \<Rightarrow> TxMixin \<Rightarrow> error + store_call" where
  "txMixin h tx =
     (let domain = getDomain h (objectClass tx)
      in if isOperator h (attributes tx)
         then (let operator = first_key (own_keys (JObj (attributes tx)))
               in if operator = Some ''$move''
                  then (let keyval = obj_prop (attributes tx) ''$move''
                        in andThen (Object_keys keyval) (\<lambda>keys.
                           let arr = mixin tx @ ''.'' @ key_string (first_key keys)
                           in andThen (js_get keyval arr) (\<lambda>desc.
                              andThen (js_get desc ''$value'') (\<lambda>v.
                              andThen (js_get desc ''$position'') (\<lambda>pos.
                                Inr \<lparr>collection = domain,
                                     operation = BulkWrite
                                       (move_ops (objectId tx) (modifiedBy tx) (modifiedOn tx) arr v pos),
                                     reply = Driver_result\<rparr>)))))
                  else andThen (translateMixinAttrs (mixin tx) (JObj (attributes tx))) (\<lambda>attrs.
                         Inr \<lparr>collection = domain,
                              operation = UpdateOne (id_filter (objectId tx))
                                (JObj (obj_set attrs ''$set''
                                   (JObj (stamp (modifiedBy tx) (modifiedOn tx))))),
                              reply = Driver_result\<rparr>))
         else andThen (translateMixinAttrs (mixin tx) (JObj (attributes tx))) (\<lambda>attrs.
                Inr \<lparr>collection = domain,
                     operation = UpdateOne (id_filter (objectId tx))
                       (JObj [(''$set'',
                          JObj (obj_set (obj_set attrs ''modifiedBy'' (JStr (modifiedBy tx)))
                                  ''modifiedOn'' (JNum (modifiedOn tx))))]),
                     reply = Driver_result\<rparr>))"

definition txUpdateDoc :: "env \<Rightarrow> TxUpdateDoc \<Rightarrow> error + store_call" where
  "txUpdateDoc h tx =
     (let domain = getDomain h (objectClass tx)
      in if isOperator h (operations tx)
         then (let operator = first_key (own_keys (JObj (operations tx)))
               in if operator = Some ''$move''
                  then (let keyval = obj_prop (operations tx) ''$move''
                        in andThen (Object_keys keyval) (\<lambda>keys.
                           let arr = key_string (first_key keys)
                           in andThen (js_get keyval arr) (\<lambda>desc.
                              andThen (js_get desc ''$value'') (\<lambda>v.
                              andThen (js_get desc ''$position'') (\<lambda>pos.
                                Inr \<lparr>collection = domain,
                                     operation = BulkWrite
                                       (move_ops (objectId tx) (modifiedBy tx) (modifiedOn tx) arr v pos),
                                     reply = Driver_result\<rparr>)))))
                  else (let update = JObj (obj_set (operations tx) ''$set''
                                       (JObj (stamp (modifiedBy tx) (modifiedOn tx))))
                        in if retrieve tx = Some True
                           then Inr \<lparr>collection = domain,
                                     operation = FindOneAndUpdate (id_filter (objectId tx)) update
                                       (JObj [(''returnDocument'', JStr ''after'')]),
                                     reply = Object_of_value\<rparr>
                           else Inr \<lparr>collection = domain,
                                     operation = UpdateOne (id_filter (objectId tx)) update,
                                     reply = Driver_result\<rparr>))
         else (let update = JObj [(''$set'',
                              JObj (obj_set (obj_set (operations tx) ''modifiedBy'' (JStr (modifiedBy tx)))
                                      ''modifiedOn'' (JNum (modifiedOn tx))))]
               in if retrieve tx = Some True
                  then Inr \<lparr>collection = domain,
                            operation = FindOneAndUpdate (id_filter (objectId tx)) update
                              (JObj [(''returnDocument'', JStr ''after'')]),
                            reply = Object_of_value\<rparr>
                  else Inr \<lparr>collection = domain,
                            operation = UpdateOne (id_filter (objectId tx)) update,
                            reply = Driver_result\<rparr>))"

section \<open>The store's side\<close>

text \<open>
  The database is not part of the file. What the specification says about stored documents is
  stated against the database's documented behaviour on the calls the adapter makes,
  written out here for the part that is used: a collection holds documents, a filter
  \<^verbatim>\<open>{ _id: v }\<close> selects the documents whose \<^verbatim>\<open>_id\<close> is \<^verbatim>\<open>v\<close>, \<^verbatim>\<open>deleteOne\<close> removes the
  first selected document, and \<^verbatim>\<open>$set\<close> writes each of its fields, a name with dots
  addressing an embedded document that is created when it is missing. A result
  \<^verbatim>\<open>None\<close> is a call the database rejects, or one outside this part.
\<close>

type_synonym store = "string \<Rightarrow> jobject list"

definition matches_id :: "jv \<Rightarrow> jobject \<Rightarrow> bool" where
  "matches_id v doc = (map_of doc ''_id'' = Some v)"

fun filter_id :: "jv \<Rightarrow> jv option" where
  "filter_id (JObj [(k, v)]) = (if k = ''_id'' then Some v else None)"
| "filter_id _ = None"

fun delete_first :: "(jobject \<Rightarrow> bool) \<Rightarrow> jobject list \<Rightarrow> jobject list" where
  "delete_first P [] = []"
| "delete_first P (d # ds) = (if P d then ds else d # delete_first P ds)"

fun update_first ::
  "(jobject \<Rightarrow> bool) \<Rightarrow> (jobject \<Rightarrow> jobject option) \<Rightarrow> jobject list \<Rightarrow> jobject list option" where
  "update_first P f [] = Some []"
| "update_first P f (d # ds) =
     (if P d then map_option (\<lambda>d'. d' # ds) (f d)
      else map_option (\<lambda>ds'. d # ds') (update_first P f ds))"

definition field_path :: "string \<Rightarrow> string list" where
  "field_path name = split name CHR ''.''"

text \<open>Writing a value at a path: the embedded documents on the way are created when
  missing; the write fails when the path crosses a value that is not a document.\<close>

fun set_path :: "string list \<Rightarrow> jv \<Rightarrow> jobject \<Rightarrow> jobject option" where
  "set_path [] v doc = None"
| "set_path [k] v doc = Some (obj_set doc k v)"
| "set_path (k # k' # ks) v doc =
     (case map_of doc k of
        None \<Rightarrow> map_option (\<lambda>sub. obj_set doc k (JObj sub)) (set_path (k' # ks) v [])
      | Some (JObj sub) \<Rightarrow> map_option (\<lambda>sub'. obj_set doc k (JObj sub')) (set_path (k' # ks) v sub)
      | Some _ \<Rightarrow> None)"

fun set_fields :: "(string \<times> jv) list \<Rightarrow> jobject \<Rightarrow> jobject option" where
  "set_fields [] doc = Some doc"
| "set_fields ((name, v) # rest) doc =
     (case set_path (field_path name) v doc of
        None \<Rightarrow> None
      | Some doc' \<Rightarrow> set_fields rest doc')"

text \<open>An update is rejected when one of its paths is the beginning of another, when a
  path has an empty component, and when a path starts at \<^verbatim>\<open>_id\<close>.\<close>

definition path_ok :: "string list list \<Rightarrow> string list \<Rightarrow> bool" where
  "path_ok ps p =
     (p \<noteq> [] \<and> [] \<notin> set p \<and> hd p \<noteq> ''_id'' \<and>
      list_all (\<lambda>q. q = p \<or> take (length p) q \<noteq> p) ps)"

definition paths_ok :: "string list list \<Rightarrow> bool" where
  "paths_ok ps = list_all (path_ok ps) ps"

fun apply_update :: "jv \<Rightarrow> jobject \<Rightarrow> jobject option" where
  "apply_update (JObj [(operator, JObj assignments)]) doc =
     (if operator = ''$set'' \<and> paths_ok (map (\<lambda>(name, v). field_path name) assignments)
      then set_fields assignments doc
      else None)"
| "apply_update _ doc = None"

text \<open>The test \<^verbatim>\<open>{ name: { $exists: true } }\<close> on a document.\<close>

fun path_exists :: "string list \<Rightarrow> jobject \<Rightarrow> bool" where
  "path_exists [] doc = False"
| "path_exists [k] doc = (map_of doc k \<noteq> None)"
| "path_exists (k # k' # ks) doc =
     (case map_of doc k of
        Some (JObj sub) \<Rightarrow> path_exists (k' # ks) sub
      | _ \<Rightarrow> False)"

definition field_exists :: "string \<Rightarrow> jobject \<Rightarrow> bool" where
  "field_exists name doc = path_exists (field_path name) doc"

text \<open>The effect of a call on the documents of its collection.\<close>

fun run_op :: "native_op \<Rightarrow> jobject list \<Rightarrow> jobject list option" where
  "run_op (DeleteOne f) docs =
     (case filter_id f of
        None \<Rightarrow> None
      | Some v \<Rightarrow> Some (delete_first (matches_id v) docs))"
| "run_op (UpdateOne f u) docs =
     (case filter_id f of
        None \<Rightarrow> None
      | Some v \<Rightarrow> update_first (matches_id v) (apply_update u) docs)"
| "run_op _ docs = None"

definition run :: "store_call \<Rightarrow> store \<Rightarrow> store option" where
  "run c s =
     map_option (\<lambda>docs. s(collection c := docs)) (run_op (operation c) (s (collection c)))"

text \<open>A collection holds at most one document for an identifier.\<close>

definition unique_ids :: "jobject list \<Rightarrow> bool" where
  "unique_ids docs = distinct (map (\<lambda>doc. map_of doc ''_id'') docs)"

section \<open>Regular expressions of the pattern match\<close>

text \<open>
  \<^verbatim>\<open>translateQuery\<close> puts the pattern into the expression as it is, only \<^verbatim>\<open>%\<close>
  replaced. The store's engine is not part of the file; the meaning of an expression is
  written out here for the part that is used, and no meaning is given outside it
  (\<open>None\<close>). The part: an expression of plain characters (printable ASCII with no
  special meaning in a regular expression) and \<^verbatim>\<open>.\<close>, each of them possibly followed by
  \<^verbatim>\<open>*\<close>, with \<^verbatim>\<open>^\<close> possibly first and \<^verbatim>\<open>$\<close> possibly last, on an ASCII value.
  Under the option \<^verbatim>\<open>i\<close>: \<^verbatim>\<open>.\<close> is any character but a line feed, \<^verbatim>\<open>x*\<close> is any number of
  \<^verbatim>\<open>x\<close>, letters match in either case, \<^verbatim>\<open>^\<close> is the start of the value, and \<^verbatim>\<open>$\<close> is
  its end or the place before a line feed that ends it.
\<close>

definition plain_char :: "char \<Rightarrow> bool" where
  "plain_char c =
     (32 \<le> (of_char c :: nat) \<and> (of_char c :: nat) < 127 \<and>
      c \<notin> set ''.*^$+?()[]{}|'' \<and> c \<noteq> CHR 0x5C)"

definition regex_atom :: "char \<Rightarrow> bool" where
  "regex_atom c = (c = CHR ''.'' \<or> plain_char c)"

fun supported_body :: "string \<Rightarrow> bool" where
  "supported_body [] = True"
| "supported_body [c] = (c = CHR ''$'' \<or> regex_atom c)"
| "supported_body (c # c' # cs) =
     (regex_atom c \<and> (if c' = CHR ''*'' then supported_body cs else supported_body (c' # cs)))"

definition ascii :: "string \<Rightarrow> bool" where
  "ascii s = list_all (\<lambda>c. (of_char c :: nat) < 128) s"

definition lower :: "char \<Rightarrow> char" where
  "lower c =
     (let n = (of_char c :: nat) in if 65 \<le> n \<and> n \<le> 90 then char_of (n + 32) else c)"

definition char_matches :: "char \<Rightarrow> char \<Rightarrow> bool" where
  "char_matches r t = (if r = CHR ''.'' then t \<noteq> CHR 0x0A else lower r = lower t)"

function match_here :: "string \<Rightarrow> string \<Rightarrow> bool"
  and match_star :: "char \<Rightarrow> string \<Rightarrow> string \<Rightarrow> bool"
where
  "match_here re text =
     (case re of
        [] \<Rightarrow> True
      | r # re' \<Rightarrow>
          (case re' of
             [] \<Rightarrow> (if r = CHR ''$'' then text = [] \<or> text = [CHR 0x0A]
                    else (case text of [] \<Rightarrow> False | t # ts \<Rightarrow> char_matches r t))
           | r' # re'' \<Rightarrow>
               (if r' = CHR ''*'' then match_star r re'' text
                else (case text of
                        [] \<Rightarrow> False
                      | t # ts \<Rightarrow> char_matches r t \<and> match_here re' ts))))"
| "match_star r re text =
     (match_here re text \<or>
      (case text of [] \<Rightarrow> False | t # ts \<Rightarrow> char_matches r t \<and> match_star r re ts))"
  by pat_completeness auto
termination
  by (relation "measure (\<lambda>x. case x of
        Inl (re, text) \<Rightarrow> 2 * (length re + length text)
      | Inr (r, re, text) \<Rightarrow> 2 * (length re + length text) + 3)") auto

definition regex_test :: "string \<Rightarrow> string \<Rightarrow> bool option" where
  "regex_test re text =
     (if \<not> ascii text then None
      else (case re of
              [] \<Rightarrow> Some True
            | r # re' \<Rightarrow>
                (if r = CHR ''^''
                 then (if supported_body re' then Some (match_here re' text) else None)
                 else (if supported_body re
                       then Some (list_ex (\<lambda>n. match_here re (drop n text))
                                    [0..<Suc (length text)])
                       else None))))"

text \<open>The pattern match the translation stands for: \<^verbatim>\<open>%\<close> is any sequence of
  characters, every other character is itself in either case, and the pattern covers
  the whole string.\<close>

fun like_match :: "string \<Rightarrow> string \<Rightarrow> bool" where
  "like_match [] text = (text = [])"
| "like_match (c # p) [] = (c = CHR ''%'' \<and> like_match p [])"
| "like_match (c # p) (t # ts) =
     (if c = CHR ''%'' then like_match p (t # ts) \<or> like_match (c # p) ts
      else lower c = lower t \<and> like_match p ts)"

text \<open>A pattern of plain characters and \<^verbatim>\<open>%\<close>.\<close>

definition plain_pattern :: "string \<Rightarrow> bool" where
  "plain_pattern p = list_all (\<lambda>c. c = CHR ''%'' \<or> plain_char c) p"

section \<open>A small hierarchy\<close>

text \<open>Modelled from the spec: \<^verbatim>\<open>isOperator\<close> is imported from \<^verbatim>\<open>@anticrm/core\<close> and is
  not in the file. An operator map is a payload whose top-level keys are operator tags,
  told from field names by the prefix \<^verbatim>\<open>$\<close>; a payload with no key is a plain field
  map. It is used for the examples only: the handlers take \<^verbatim>\<open>isOperator\<close> as a
  parameter.\<close>

definition isOperator_prefix :: "jobject \<Rightarrow> bool" where
  "isOperator_prefix obj = (obj \<noteq> [] \<and> list_all (\<lambda>(k, v). startsWith k ''$'') obj)"

text \<open>A class \<^verbatim>\<open>C\<close> with the subclasses \<^verbatim>\<open>D1\<close> and \<^verbatim>\<open>D2\<close> and the mixin \<^verbatim>\<open>M\<close>, stored
  in one domain; an unrelated class \<^verbatim>\<open>E\<close>; a class \<^verbatim>\<open>U\<close> of the model domain, with one
  object in the model cache.\<close>

definition sample_env :: env where
  "sample_env = \<lparr>
     getBaseClass = (\<lambda>c. if c \<in> {''D1'', ''D2'', ''M''} then ''C'' else c),
     getDescendants = (\<lambda>c. if c = ''C'' then [''C'', ''D1'', ''D2''] else [c]),
     getDomain = (\<lambda>c. if c = ''U'' then ''model'' else if c = ''E'' then ''others'' else ''things''),
     DOMAIN_MODEL = ''model'',
     isOperator = isOperator_prefix,
     Ascending = JNum 1,
     getObject = (\<lambda>i. if i = JStr ''u1''
                        then Inr (JObj [(''_id'', JStr ''u1''), (''_class'', JStr ''U'')])
                        else Inl StoreError)\<rparr>"

section \<open>What a row holds\<close>


section \<open>What a call writes\<close>

text \<open>The updates a call submits, each with its filter, in the order of submission.\<close>

definition batch_entry :: "jv \<Rightarrow> jv \<times> jv" where
  "batch_entry entry =
     (case js_get entry ''updateOne'' of
        Inl e \<Rightarrow> (JUndefined, JUndefined)
      | Inr u \<Rightarrow>
          (case (js_get u ''filter'', js_get u ''update'') of
             (Inr f, Inr d) \<Rightarrow> (f, d)
           | _ \<Rightarrow> (JUndefined, JUndefined)))"

fun writes :: "native_op \<Rightarrow> (jv \<times> jv) list" where
  "writes (UpdateOne f u) = [(f, u)]"
| "writes (FindOneAndUpdate f u options) = [(f, u)]"
| "writes (BulkWrite (JArr entries)) = map batch_entry entries"
| "writes _ = []"

text \<open>An update document sets a field to a value: its \<^verbatim>\<open>$set\<close> clause has the field,
  with that value.\<close>

definition sets_field :: "jv \<Rightarrow> string \<Rightarrow> jv \<Rightarrow> bool" where
  "sets_field update name v =
     (case js_get update ''$set'' of
        Inr (JObj clause) \<Rightarrow> map_of clause name = Some v
      | _ \<Rightarrow> False)"

text \<open>A call stamps the document of an identifier: one of its updates, on that
  identifier, sets \<^verbatim>\<open>modifiedBy\<close> and \<^verbatim>\<open>modifiedOn\<close>.\<close>

definition stamped :: "string \<Rightarrow> string \<Rightarrow> int \<Rightarrow> store_call \<Rightarrow> bool" where
  "stamped oid by on c =
     list_ex (\<lambda>(f, u). f = id_filter oid \<and>
                sets_field u ''modifiedBy'' (JStr by) \<and>
                sets_field u ''modifiedOn'' (JNum on))
       (writes (operation c))"

section \<open>Properties of the JavaScript values\<close>

lemma map_of_obj_set: "map_of (obj_set kvs k v) = (map_of kvs)(k \<mapsto> v)"
  by (induction kvs) auto

lemma obj_prop_obj_set:
  "obj_prop (obj_set kvs k v) k' = (if k' = k then v else obj_prop kvs k')"
  by (simp add: obj_prop_def map_of_obj_set)

text \<open>The keys of arrays and strings are made of digits: a name with another character
  is not among them.\<close>

declare string_of_nat.simps [simp del]

lemma digit_char_range:
  "d < 10 \<Longrightarrow> 48 \<le> (of_char (digit_char d) :: nat) \<and> (of_char (digit_char d) :: nat) \<le> 57"
  by (simp add: digit_char_def)

lemma string_of_nat_digits:
  "c \<in> set (string_of_nat n) \<Longrightarrow> 48 \<le> (of_char c :: nat) \<and> (of_char c :: nat) \<le> 57"
proof (induction n rule: string_of_nat.induct)
  case (1 n)
  show ?case
  proof (cases "n < 10")
    case True
    with "1.prems" have "c = digit_char n"
      by (subst (asm) string_of_nat.simps) simp
    with True digit_char_range show ?thesis
      by blast
  next
    case False
    with "1.prems" have "c \<in> set (string_of_nat (n div 10)) \<or> c = digit_char (n mod 10)"
      by (subst (asm) string_of_nat.simps) auto
    moreover have "n mod 10 < 10"
      by simp
    ultimately show ?thesis
      using "1.IH" [OF False] digit_char_range [of "n mod 10"] by blast
  qed
qed

lemma index_of_key_other:
  assumes "c \<in> set k" and "(of_char c :: nat) < 48 \<or> 57 < (of_char c :: nat)"
  shows "index_of_key n k = None"
proof -
  have "string_of_nat i \<noteq> k" for i
    using assms string_of_nat_digits [of c i] by auto
  then show ?thesis
    by (simp add: index_of_key_def find_None_iff)
qed

lemma index_of_key_operator [simp]: "index_of_key n (CHR ''$'' # k) = None"
  by (rule index_of_key_other [of "CHR ''$''"]) simp_all

section \<open>Properties of the objects built by assignment\<close>

text \<open>An assignment under a key other than \<^verbatim>\<open>__proto__\<close> defines an own property and
  leaves the prototype; an assignment touches no own property under another key.\<close>

lemma assign_plain_key:
  "k \<noteq> ''__proto__'' \<Longrightarrow> assign b k v = b\<lparr>own := obj_set (own b) k v\<rparr>"
  by (simp add: assign_def)

lemma map_of_own_assign:
  "k \<noteq> ''__proto__'' \<Longrightarrow> map_of (own (assign b k v)) = (map_of (own b))(k \<mapsto> v)"
  by (simp add: assign_plain_key map_of_obj_set)

lemma map_of_own_assign_other:
  "k' \<noteq> k \<Longrightarrow> map_of (own (assign b k v)) k' = map_of (own b) k'"
  by (simp add: assign_def map_of_obj_set)

lemma proto_assign: "k \<noteq> ''__proto__'' \<Longrightarrow> proto (assign b k v) = proto b"
  by (simp add: assign_plain_key)

text \<open>Reading a property the object has is reading its own property.\<close>

lemma js_get_value_of_own:
  "map_of (own b) k = Some v \<Longrightarrow> js_get (value_of b) k = Inr v"
  by (cases "proto b") (simp_all add: value_of_def obj_prop_def)

lemma js_get_value_of_plain:
  "proto b = None \<Longrightarrow> js_get (value_of b) k = Inr (obj_prop (own b) k)"
  by (simp add: value_of_def)

lemma value_of_plain: "proto b = None \<Longrightarrow> value_of b = JObj (own b)"
  by (simp add: value_of_def)

text \<open>What the setter does: an object or \<^verbatim>\<open>null\<close> becomes the prototype of a fresh
  object, any other value is ignored, and nothing is written.\<close>

lemma assign_proto_object:
  "typeof_object v \<Longrightarrow>
   assign empty_object ''__proto__'' v = \<lparr>proto = Some v, own = []\<rparr>"
  by (simp add: assign_def empty_object_def)

lemma assign_proto_primitive:
  "\<not> typeof_object v \<Longrightarrow> assign empty_object ''__proto__'' v = empty_object"
  by (simp add: assign_def empty_object_def)

section \<open>Properties of the query translator\<close>

text \<open>After the loop, a key of the filter other than \<^verbatim>\<open>__proto__\<close> holds its translated
  value, nothing else was written, and the prototype is the one the object started
  with when no key of the filter is \<^verbatim>\<open>__proto__\<close>.\<close>

lemma translate_loop_prop:
  "translate_loop query ks acc = Inr t \<Longrightarrow>
   (k \<in> set ks \<longrightarrow> k \<noteq> ''__proto__'' \<longrightarrow>
      (\<exists>v. translate_value (obj_prop query k) = Inr v \<and> map_of (own t) k = Some v)) \<and>
   (k \<notin> set ks \<longrightarrow> map_of (own t) k = map_of (own acc) k)"
proof (induction ks arbitrary: acc)
  case Nil
  then show ?case by simp
next
  case (Cons a ks)
  from Cons.prems obtain v where v: "translate_value (obj_prop query a) = Inr v"
    and rest: "translate_loop query ks (assign acc a v) = Inr t"
    by (auto split: sum.splits)
  from Cons.IH [OF rest] v show ?case
    by (auto simp: map_of_own_assign map_of_own_assign_other)
qed

lemma translate_loop_proto:
  "translate_loop query ks acc = Inr t \<Longrightarrow> ''__proto__'' \<notin> set ks \<Longrightarrow> proto t = proto acc"
proof (induction ks arbitrary: acc)
  case Nil
  then show ?case by simp
next
  case (Cons a ks)
  from Cons.prems obtain v where rest: "translate_loop query ks (assign acc a v) = Inr t"
    by (auto split: sum.splits)
  from Cons.prems(2) have "a \<noteq> ''__proto__''" and "''__proto__'' \<notin> set ks"
    by auto
  with Cons.IH [OF rest] show ?case
    by (simp add: proto_assign)
qed

lemma translate_loop_total:
  "(\<forall>k \<in> set ks. \<exists>v. translate_value (obj_prop query k) = Inr v) \<Longrightarrow>
   \<exists>t. translate_loop query ks acc = Inr t"
  by (induction ks arbitrary: acc) auto

text \<open>For a filter with no key \<^verbatim>\<open>__proto__\<close> and a class that is not named so, the
  object returned has the prototype it started with, and its own properties are those
  of the loop, then the class constraint, then the test of the mixin key.\<close>

lemma translateQuery_plain:
  assumes "translateQuery h clazz query = Inr translated"
    and "''__proto__'' \<notin> fst ` set query" and "clazz \<noteq> ''__proto__''"
  shows "\<exists>t. translate_loop query (map fst query) empty_object = Inr t \<and> proto t = None \<and>
             translated =
               JObj (let props =
                   (if class_in (JObj (own t)) = JUndefined
                    then obj_set (own t) ''_class''
                      (JObj [(''$in'', JArr (map JStr (getDescendants h (getBaseClass h clazz))))])
                    else own t)
                 in if getBaseClass h clazz \<noteq> clazz
                    then obj_set props clazz (JObj [(''$exists'', JBool True)])
                    else props)"
proof -
  from assms(1) obtain t where loop: "translate_loop query (map fst query) empty_object = Inr t"
    by (auto simp: translateQuery_def split: sum.splits)
  from translate_loop_proto [OF loop] assms(2) have p: "proto t = None"
    by (simp add: empty_object_def)
  then have v: "value_of t = JObj (own t)"
    by (rule value_of_plain)
  from assms(1,3) loop p show ?thesis
    by (auto simp: translateQuery_def Let_def v assign_plain_key value_of_def)
qed



lemma class_constraint_kept:
  assumes "translateQuery h clazz query = Inr translated"
    and "''__proto__'' \<notin> fst ` set query" and "clazz \<noteq> ''__proto__''"
    and "js_get (obj_prop query ''_class'') ''$in'' = Inr v" and "v \<noteq> JUndefined"
    and "first_key (own_keys (obj_prop query ''_class'')) \<noteq> Some ''$like''"
    and "clazz \<noteq> ''_class''"
  shows "js_get translated ''_class'' = Inr (obj_prop query ''_class'')"
proof -
  from translateQuery_plain [OF assms(1-3)] obtain t where
    loop: "translate_loop query (map fst query) empty_object = Inr t"
    and tr: "translated =
               JObj (let props =
                   (if class_in (JObj (own t)) = JUndefined
                    then obj_set (own t) ''_class''
                      (JObj [(''$in'', JArr (map JStr (getDescendants h (getBaseClass h clazz))))])
                    else own t)
                 in if getBaseClass h clazz \<noteq> clazz
                    then obj_set props clazz (JObj [(''$exists'', JBool True)])
                    else props)"
    by blast
  from assms(4,5) have present: "''_class'' \<in> set (map fst query)"
    by (cases "map_of query ''_class''") (auto simp: obj_prop_def dest: map_of_SomeD intro: rev_image_eqI)
  from assms(6) have "translate_value (obj_prop query ''_class'') = Inr (obj_prop query ''_class'')"
    by (simp add: translate_value_def)
  with translate_loop_prop [OF loop, of "''_class''"] present
  have same: "obj_prop (own t) ''_class'' = obj_prop query ''_class''"
    by (auto simp: obj_prop_def)
  with assms(4,5) have "class_in (JObj (own t)) \<noteq> JUndefined"
    by (simp add: class_in_def)
  with assms(7) same show ?thesis
    by (simp add: tr Let_def obj_prop_obj_set)
qed

text \<open>The translation returns a filter when every pattern is a string.\<close>

lemma translateQuery_total:
  assumes "\<forall>(k, v) \<in> set query.
             first_key (own_keys v) = Some ''$like'' \<longrightarrow> (\<exists>p. js_get v ''$like'' = Inr (JStr p))"
  shows "\<exists>translated. translateQuery h clazz query = Inr translated"
proof -
  have "\<exists>v. translate_value (obj_prop query k) = Inr v" if "k \<in> set (map fst query)" for k
  proof -
    from that obtain v where v: "map_of query k = Some v"
      by (metis map_of_eq_None_iff not_Some_eq set_map)
    then have "(k, v) \<in> set query"
      by (rule map_of_SomeD)
    with assms have "first_key (own_keys v) = Some ''$like'' \<longrightarrow> (\<exists>p. js_get v ''$like'' = Inr (JStr p))"
      by blast
    with v show ?thesis
      by (auto simp: translate_value_def obj_prop_def)
  qed
  then obtain t where "translate_loop query (map fst query) empty_object = Inr t"
    using translate_loop_total [of "map fst query" query empty_object] by blast
  then show ?thesis
    by (simp add: translateQuery_def Let_def)
qed

text \<open>A filter parsed from JSON can have the key \<^verbatim>\<open>__proto__\<close>. The assignment in the
  loop then makes its value the prototype of the filter: the guard of the class
  constraint reads the class field of the prototype, and the filter returned has no
  class field of its own.\<close>

lemma proto_key_sets_prototype:
  "translateQuery sample_env ''M''
     [(''__proto__'', JObj [(''_class'', JObj [(''$in'', JArr [JStr ''E''])])])] =
   Inr (JProto (JObj [(''_class'', JObj [(''$in'', JArr [JStr ''E''])])])
          [(''M'', JObj [(''$exists'', JBool True)])])"
  by (simp add: translateQuery_def translate_value_def class_in_def obj_prop_def sample_env_def
      assign_def empty_object_def value_of_def)



text \<open>
  C1. The specification: when the caller's filter does not constrain the class field, the
  translated filter constrains it to the descendants of the base class of the requested
  class, and a constraint the caller gives is left unchanged. The first half holds
  (\<open>class_constraint_injected\<close>); the second holds for a constraint with a \<^verbatim>\<open>$in\<close>
  (\<open>class_constraint_kept\<close>) and fails for any other: the comment in the code says the
  constraint is replaced only if not specified, and the code tests \<^verbatim>\<open>_class.$in\<close> alone.
  Find of \<^verbatim>\<open>C\<close> with the filter \<^verbatim>\<open>{ _class: 'D1' }\<close>: the caller's constraint is replaced by
  the descendants of \<^verbatim>\<open>C\<close>.
\<close>

theorem class_value_overwritten:
  "translateQuery sample_env ''C'' [(''_class'', JStr ''D1'')] =
     Inr (JObj [(''_class'', JObj [(''$in'', JArr [JStr ''C'', JStr ''D1'', JStr ''D2''])])])"
  by (simp add: translateQuery_def translate_value_def class_in_def obj_prop_def sample_env_def
      assign_def empty_object_def value_of_def)

section \<open>Properties of the mutation translator\<close>

lemma andThen_Inr_iff: "andThen m f = Inr y \<longleftrightarrow> (\<exists>x. m = Inr x \<and> f x = Inr y)"
  by (cases m) auto

lemma andThen_Inl_iff:
  "andThen m f = Inl e \<longleftrightarrow> m = Inl e \<or> (\<exists>x. m = Inr x \<and> f x = Inl e)"
  by (cases m) auto

lemma stamped_update [simp]:
  "stamped oid by on \<lparr>collection = d, operation = UpdateOne (id_filter oid) u, reply = r\<rparr> =
     (sets_field u ''modifiedBy'' (JStr by) \<and> sets_field u ''modifiedOn'' (JNum on))"
  by (simp add: stamped_def)

lemma stamped_find_update [simp]:
  "stamped oid by on
     \<lparr>collection = d, operation = FindOneAndUpdate (id_filter oid) u options, reply = r\<rparr> =
     (sets_field u ''modifiedBy'' (JStr by) \<and> sets_field u ''modifiedOn'' (JNum on))"
  by (simp add: stamped_def)

lemma stamped_move [simp]:
  "stamped oid by on
     \<lparr>collection = d, operation = BulkWrite (move_ops oid by on arr v pos), reply = r\<rparr>"
  by (simp add: stamped_def move_ops_def batch_entry_def sets_field_def obj_prop_def)

lemma sets_field_stamp [simp]:
  "sets_field (JObj (obj_set ops ''$set'' (JObj (stamp by on)))) ''modifiedBy'' (JStr by)"
  "sets_field (JObj (obj_set ops ''$set'' (JObj (stamp by on)))) ''modifiedOn'' (JNum on)"
  by (simp_all add: sets_field_def obj_prop_obj_set stamp_def)

lemma sets_field_plain [simp]:
  "sets_field (JObj [(''$set'', JObj (obj_set (obj_set fs ''modifiedBy'' (JStr by))
      ''modifiedOn'' (JNum on)))]) ''modifiedBy'' (JStr by)"
  "sets_field (JObj [(''$set'', JObj (obj_set (obj_set fs ''modifiedBy'' (JStr by))
      ''modifiedOn'' (JNum on)))]) ''modifiedOn'' (JNum on)"
  by (simp_all add: sets_field_def obj_prop_def map_of_obj_set)

text \<open>Every call \<^verbatim>\<open>txUpdateDoc\<close> makes stamps the target, and so does every call
  \<^verbatim>\<open>txMixin\<close> makes.\<close>

lemma txUpdateDoc_stamps:
  "txUpdateDoc h tx = Inr c \<Longrightarrow> stamped (objectId tx) (modifiedBy tx) (modifiedOn tx) c"
  by (auto simp: txUpdateDoc_def Let_def andThen_Inr_iff split: if_splits)

lemma txMixin_stamps:
  "txMixin h tx = Inr c \<Longrightarrow> stamped (objectId tx) (modifiedBy tx) (modifiedOn tx) c"
  by (auto simp: txMixin_def Let_def andThen_Inr_iff split: if_splits)

text \<open>
  C2. The specification: every UpdateDoc, MixinUpdate and PutBag write sets \<^verbatim>\<open>modifiedBy\<close> and
  \<^verbatim>\<open>modifiedOn\<close> of the target to the values of the transaction. Every call of
  \<^verbatim>\<open>txUpdateDoc\<close> and of \<^verbatim>\<open>txMixin\<close> does (\<open>txUpdateDoc_stamps\<close>, \<open>txMixin_stamps\<close>).
  \<^verbatim>\<open>txPutBag\<close> writes the one field of the bag and nothing else: for every PutBag
  transaction, the update it submits does not set \<^verbatim>\<open>modifiedBy\<close> and \<^verbatim>\<open>modifiedOn\<close>.
\<close>

theorem txPutBag_not_stamped:
  "\<exists>c. txPutBag h tx = Inr c \<and>
       operation c = UpdateOne (id_filter (objectId tx))
         (JObj [(''$set'', JObj [(bag tx @ ''.'' @ key tx, value' tx)])]) \<and>
       \<not> sets_field (JObj [(''$set'', JObj [(bag tx @ ''.'' @ key tx, value' tx)])])
           ''modifiedBy'' (JStr (modifiedBy tx)) \<and>
       \<not> stamped (objectId tx) (modifiedBy tx) (modifiedOn tx) c"
proof -
  have "CHR ''.'' \<in> set (bag tx @ ''.'' @ key tx)"
    by simp
  moreover have "CHR ''.'' \<notin> set ''modifiedBy''"
    by simp
  ultimately have "bag tx @ ''.'' @ key tx \<noteq> ''modifiedBy''"
    by metis
  then show ?thesis
    by (simp add: txPutBag_def Let_def stamped_def sets_field_def obj_prop_def)
qed

text \<open>The reposition of \<^verbatim>\<open>txUpdateDoc\<close>, for a payload \<^verbatim>\<open>{ $move: { f: { $value: V,
  $position: P } } }\<close>: one batch, a pull of \<^verbatim>\<open>V\<close> from \<^verbatim>\<open>f\<close>, then the stamp and the push
  of \<^verbatim>\<open>V\<close> at \<^verbatim>\<open>P\<close>.\<close>

lemma txUpdateDoc_move:
  assumes "isOperator h ((''$move'', JObj ((f, JObj [(''$value'', V), (''$position'', P)]) # others)) # rest)"
  shows "txUpdateDoc h (tx\<lparr>operations :=
             (''$move'', JObj ((f, JObj [(''$value'', V), (''$position'', P)]) # others)) # rest\<rparr>) =
         Inr \<lparr>collection = getDomain h (objectClass tx),
              operation = BulkWrite (move_ops (objectId tx) (modifiedBy tx) (modifiedOn tx) f V P),
              reply = Driver_result\<rparr>"
  using assms by (simp add: txUpdateDoc_def Let_def obj_prop_def)

text \<open>The reposition of \<^verbatim>\<open>txMixin\<close> reads the descriptor under the name it has just
  prefixed with the mixin, where the payload has it under the name of the field: the
  descriptor is \<^verbatim>\<open>undefined\<close> and reading its \<^verbatim>\<open>$value\<close> throws.\<close>

lemma txMixin_move_throws:
  assumes "isOperator h ((''$move'', JObj ((f, desc) # others)) # rest)"
    and "map_of others (m @ ''.'' @ f) = None"
  shows "txMixin h (tx\<lparr>mixin := m, attributes := (''$move'', JObj ((f, desc) # others)) # rest\<rparr>) =
         Inl TypeError"
proof -
  have "length (m @ ''.'' @ f) \<noteq> length f"
    by simp
  then have "m @ ''.'' @ f \<noteq> f"
    by metis
  with assms show ?thesis
    by (simp add: txMixin_def Let_def obj_prop_def)
qed

text \<open>
  C3. The specification: for a MixinUpdate whose payload is the reposition of a value \<^verbatim>\<open>V\<close> to a
  position \<^verbatim>\<open>P\<close> in a field \<^verbatim>\<open>f\<close>, the adapter submits one batch of two operations on
  the target: a pull of \<^verbatim>\<open>V\<close> from \<^verbatim>\<open><mixin>.f\<close>, then the stamp with the push of \<^verbatim>\<open>V\<close> at
  \<^verbatim>\<open>P\<close>. The code: for the reposition of \<^verbatim>\<open>B\<close> to position 0 in the field \<^verbatim>\<open>items\<close> of the
  mixin \<^verbatim>\<open>M\<close>, the adapter submits no batch, it throws a TypeError
  (\<open>txMixin_move_throws\<close>, for every field).
\<close>

theorem mixin_move_throws:
  "txMixin sample_env
     \<lparr>objectId = ''o1'', objectClass = ''C'', modifiedBy = ''me'', modifiedOn = 5,
      mixin = ''M'',
      attributes = [(''$move'', JObj [(''items'',
         JObj [(''$value'', JStr ''B''), (''$position'', JNum 0)])])]\<rparr> =
   Inl TypeError"
  by (simp add: txMixin_def sample_env_def isOperator_prefix_def startsWith_def obj_prop_def)

text \<open>With \<^verbatim>\<open>$move\<close> as the first key, the outcome is computed from the value of
  \<^verbatim>\<open>$move\<close> and from the identifier, the class and the stamp of the transaction.\<close>

lemma txUpdateDoc_first_move:
  assumes "isOperator h ((''$move'', keyval) # rest)"
  shows "txUpdateDoc h (tx\<lparr>operations := (''$move'', keyval) # rest\<rparr>) =
         andThen (Object_keys keyval) (\<lambda>keys.
         andThen (js_get keyval (key_string (first_key keys))) (\<lambda>desc.
         andThen (js_get desc ''$value'') (\<lambda>v.
         andThen (js_get desc ''$position'') (\<lambda>pos.
           Inr \<lparr>collection = getDomain h (objectClass tx),
                operation = BulkWrite
                  (move_ops (objectId tx) (modifiedBy tx) (modifiedOn tx)
                     (key_string (first_key keys)) v pos),
                reply = Driver_result\<rparr>))))"
  using assms by (simp add: txUpdateDoc_def Let_def obj_prop_def)

lemma txMixin_first_move:
  assumes "isOperator h ((''$move'', keyval) # rest)"
  shows "txMixin h (mx\<lparr>attributes := (''$move'', keyval) # rest\<rparr>) =
         andThen (Object_keys keyval) (\<lambda>keys.
         andThen (js_get keyval (mixin mx @ ''.'' @ key_string (first_key keys))) (\<lambda>desc.
         andThen (js_get desc ''$value'') (\<lambda>v.
         andThen (js_get desc ''$position'') (\<lambda>pos.
           Inr \<lparr>collection = getDomain h (objectClass mx),
                operation = BulkWrite
                  (move_ops (objectId mx) (modifiedBy mx) (modifiedOn mx)
                     (mixin mx @ ''.'' @ key_string (first_key keys)) v pos),
                reply = Driver_result\<rparr>))))"
  using assms by (simp add: txMixin_def Let_def obj_prop_def)

lemma txUpdateDoc_first_other:
  assumes "isOperator h ((k, v) # rest)" and "k \<noteq> ''$move''"
  shows "\<exists>c. txUpdateDoc h (tx\<lparr>operations := (k, v) # rest\<rparr>) = Inr c \<and>
             writes (operation c) =
               [(id_filter (objectId tx),
                 JObj (obj_set ((k, v) # rest) ''$set''
                   (JObj (stamp (modifiedBy tx) (modifiedOn tx)))))]"
  using assms by (simp add: txUpdateDoc_def Let_def)

lemma txMixin_first_other:
  assumes "isOperator h ((k, v) # rest)" and "k \<noteq> ''$move''"
  shows "txMixin h (mx\<lparr>attributes := (k, v) # rest\<rparr>) =
           andThen (translateMixinAttrs (mixin mx) (JObj ((k, v) # rest))) (\<lambda>attrs.
             Inr \<lparr>collection = getDomain h (objectClass mx),
                  operation = UpdateOne (id_filter (objectId mx))
                    (JObj (obj_set attrs ''$set''
                       (JObj (stamp (modifiedBy mx) (modifiedOn mx))))),
                  reply = Driver_result\<rparr>)"
  using assms by (simp add: txMixin_def Let_def del: translateMixinAttrs.simps)

text \<open>
  C10. For an UpdateDoc or a MixinUpdate whose payload is an operator map, the handler
  looks at the first top-level key only. When it is \<^verbatim>\<open>$move\<close>, the outcome is the same
  whatever the other top-level keys, which are not written. When it is another operator,
  the handler makes the generic update of the whole map, also when \<^verbatim>\<open>$move\<close> is a later
  key.
\<close>

theorem dispatch_on_first_key:
  assumes "isOperator h ((k, v) # rest)"
  shows "(k = ''$move'' \<longrightarrow>
            (\<forall>rest'. isOperator h ((k, v) # rest') \<longrightarrow>
               txUpdateDoc h (tx\<lparr>operations := (k, v) # rest\<rparr>) =
               txUpdateDoc h (tx\<lparr>operations := (k, v) # rest'\<rparr>) \<and>
               txMixin h (mx\<lparr>attributes := (k, v) # rest\<rparr>) =
               txMixin h (mx\<lparr>attributes := (k, v) # rest'\<rparr>))) \<and>
         (k \<noteq> ''$move'' \<longrightarrow>
            (\<exists>c. txUpdateDoc h (tx\<lparr>operations := (k, v) # rest\<rparr>) = Inr c \<and>
                 writes (operation c) =
                   [(id_filter (objectId tx),
                     JObj (obj_set ((k, v) # rest) ''$set''
                       (JObj (stamp (modifiedBy tx) (modifiedOn tx)))))]) \<and>
            txMixin h (mx\<lparr>attributes := (k, v) # rest\<rparr>) =
              andThen (translateMixinAttrs (mixin mx) (JObj ((k, v) # rest))) (\<lambda>attrs.
                Inr \<lparr>collection = getDomain h (objectClass mx),
                     operation = UpdateOne (id_filter (objectId mx))
                       (JObj (obj_set attrs ''$set''
                          (JObj (stamp (modifiedBy mx) (modifiedOn mx))))),
                     reply = Driver_result\<rparr>))"
proof (cases "k = ''$move''")
  case True
  with assms show ?thesis
    by (simp add: txUpdateDoc_first_move txMixin_first_move)
next
  case False
  with assms txUpdateDoc_first_other [of h k v rest tx] txMixin_first_other [of h k v rest mx]
  show ?thesis
    by simp
qed

theorem dispatch_on_first_key_witness:
  "isOperator sample_env [(''$move'', JObj [(''items'',
       JObj [(''$value'', JStr ''B''), (''$position'', JNum 0)])]), (''$push'', JObj [(''tags'', JStr ''t'')])] \<and>
   isOperator sample_env [(''$move'', JObj [(''items'',
       JObj [(''$value'', JStr ''B''), (''$position'', JNum 0)])])] \<and>
   txUpdateDoc sample_env
     \<lparr>objectId = ''o1'', objectClass = ''C'', modifiedBy = ''me'', modifiedOn = 5,
      operations = [(''$move'', JObj [(''items'',
         JObj [(''$value'', JStr ''B''), (''$position'', JNum 0)])]),
         (''$push'', JObj [(''tags'', JStr ''t'')])],
      retrieve = None\<rparr> =
   txUpdateDoc sample_env
     \<lparr>objectId = ''o1'', objectClass = ''C'', modifiedBy = ''me'', modifiedOn = 5,
      operations = [(''$move'', JObj [(''items'',
         JObj [(''$value'', JStr ''B''), (''$position'', JNum 0)])])],
      retrieve = None\<rparr> \<and>
   txUpdateDoc sample_env
     \<lparr>objectId = ''o1'', objectClass = ''C'', modifiedBy = ''me'', modifiedOn = 5,
      operations = [(''$move'', JObj [(''items'',
         JObj [(''$value'', JStr ''B''), (''$position'', JNum 0)])])],
      retrieve = None\<rparr> =
   Inr \<lparr>collection = ''things'',
        operation = BulkWrite (move_ops ''o1'' ''me'' 5 ''items'' (JStr ''B'') (JNum 0)),
        reply = Driver_result\<rparr>"
proof -
  let ?mv = "(''$move'', JObj [(''items'', JObj [(''$value'', JStr ''B''), (''$position'', JNum 0)])])"
  let ?tx = "\<lparr>objectId = ''o1'', objectClass = ''C'', modifiedBy = ''me'', modifiedOn = 5,
      operations = [], retrieve = None\<rparr>"
  let ?mx = "\<lparr>objectId = ''o1'', objectClass = ''C'', modifiedBy = ''me'', modifiedOn = 5,
      mixin = ''M'', attributes = []\<rparr>"
  have a: "isOperator sample_env [?mv, (''$push'', JObj [(''tags'', JStr ''t'')])]"
    by (simp add: sample_env_def isOperator_prefix_def startsWith_def)
  have b: "isOperator sample_env [?mv]"
    by (simp add: sample_env_def isOperator_prefix_def startsWith_def)
  have c: "txUpdateDoc sample_env (?tx\<lparr>operations := [?mv]\<rparr>) =
      Inr \<lparr>collection = ''things'',
        operation = BulkWrite (move_ops ''o1'' ''me'' 5 ''items'' (JStr ''B'') (JNum 0)),
        reply = Driver_result\<rparr>"
    using b by (simp add: txUpdateDoc_def obj_prop_def) (simp add: sample_env_def)
  have "\<forall>rest'. isOperator sample_env (?mv # rest') \<longrightarrow>
          txUpdateDoc sample_env (?tx\<lparr>operations := [?mv, (''$push'', JObj [(''tags'', JStr ''t'')])]\<rparr>) =
          txUpdateDoc sample_env (?tx\<lparr>operations := ?mv # rest'\<rparr>) \<and>
          txMixin sample_env (?mx\<lparr>attributes := [?mv, (''$push'', JObj [(''tags'', JStr ''t'')])]\<rparr>) =
          txMixin sample_env (?mx\<lparr>attributes := ?mv # rest'\<rparr>)"
    using dispatch_on_first_key [OF a, of ?tx ?mx] by blast
  with b have d: "txUpdateDoc sample_env (?tx\<lparr>operations := [?mv, (''$push'', JObj [(''tags'', JStr ''t'')])]\<rparr>) =
          txUpdateDoc sample_env (?tx\<lparr>operations := [?mv]\<rparr>)"
    by blast
  have "?tx\<lparr>operations := [?mv]\<rparr> =
      \<lparr>objectId = ''o1'', objectClass = ''C'', modifiedBy = ''me'', modifiedOn = 5,
       operations = [?mv], retrieve = None\<rparr>"
    by simp
  moreover have "?tx\<lparr>operations := [?mv, (''$push'', JObj [(''tags'', JStr ''t'')])]\<rparr> =
      \<lparr>objectId = ''o1'', objectClass = ''C'', modifiedBy = ''me'', modifiedOn = 5,
       operations = [?mv, (''$push'', JObj [(''tags'', JStr ''t'')])], retrieve = None\<rparr>"
    by simp
  ultimately show ?thesis
    using a b c d by (simp only: simp_thms)
qed

text \<open>
  C5. For every UpdateDoc that is not a reposition and has the retrieve flag set, the
  adapter makes one call, a fetch-and-update on the identifier that asks for the
  document after the update, and its result is the document the store reports: the
  updated document, or none (\<^verbatim>\<open>null\<close>) when no document has the identifier, with no
  error raised.
\<close>

theorem retrieve_after_update:
  assumes "retrieve tx = Some True"
    and "\<not> (isOperator h (operations tx) \<and>
            first_key (own_keys (JObj (operations tx))) = Some ''$move'')"
  shows "\<exists>update.
           txUpdateDoc h tx =
             Inr \<lparr>collection = getDomain h (objectClass tx),
                  operation = FindOneAndUpdate (id_filter (objectId tx)) update
                    (JObj [(''returnDocument'', JStr ''after'')]),
                  reply = Object_of_value\<rparr> \<and>
           update =
             (if isOperator h (operations tx)
              then JObj (obj_set (operations tx) ''$set''
                     (JObj (stamp (modifiedBy tx) (modifiedOn tx))))
              else JObj [(''$set'',
                     JObj (obj_set (obj_set (operations tx) ''modifiedBy'' (JStr (modifiedBy tx)))
                             ''modifiedOn'' (JNum (modifiedOn tx))))]) \<and>
           (\<forall>answer. tx_result Object_of_value (JObj answer) =
                       Inr (JObj [(''object'', obj_prop answer ''value'')]))"
  using assms by (auto simp: txUpdateDoc_def Let_def)

theorem retrieve_after_update_witness:
  "retrieve \<lparr>objectId = ''o1'', objectClass = ''C'', modifiedBy = ''me'', modifiedOn = 5,
      operations = [(''name'', JStr ''n'')], retrieve = Some True\<rparr> = Some True \<and>
   txUpdateDoc sample_env
     \<lparr>objectId = ''o1'', objectClass = ''C'', modifiedBy = ''me'', modifiedOn = 5,
      operations = [(''name'', JStr ''n'')], retrieve = Some True\<rparr> =
     Inr \<lparr>collection = ''things'',
          operation = FindOneAndUpdate (JObj [(''_id'', JStr ''o1'')])
            (JObj [(''$set'', JObj [(''name'', JStr ''n''), (''modifiedBy'', JStr ''me''),
                                   (''modifiedOn'', JNum 5)])])
            (JObj [(''returnDocument'', JStr ''after'')]),
          reply = Object_of_value\<rparr> \<and>
   tx_result Object_of_value (JObj [(''value'', JObj [(''_id'', JStr ''o1''), (''name'', JStr ''n'')]),
                                    (''ok'', JNum 1)]) =
     Inr (JObj [(''object'', JObj [(''_id'', JStr ''o1''), (''name'', JStr ''n'')])]) \<and>
   tx_result Object_of_value (JObj [(''value'', JNull), (''ok'', JNum 1)]) =
     Inr (JObj [(''object'', JNull)])"
proof -
  let ?tx = "\<lparr>objectId = ''o1'', objectClass = ''C'', modifiedBy = ''me'', modifiedOn = 5,
      operations = [(''name'', JStr ''n'')], retrieve = Some True\<rparr>"
  have r: "retrieve ?tx = Some True"
    by simp
  have n: "\<not> (isOperator sample_env (operations ?tx) \<and>
            first_key (own_keys (JObj (operations ?tx))) = Some ''$move'')"
    by simp
  from retrieve_after_update [OF r n] show ?thesis
    by (simp add: sample_env_def isOperator_prefix_def startsWith_def id_filter_def obj_prop_def)
qed

section \<open>Properties on the store's side\<close>

lemma delete_first_none: "\<not> list_ex P ds \<Longrightarrow> delete_first P ds = ds"
  by (induction ds) auto

lemma delete_first_subset: "set (delete_first P ds) \<subseteq> set ds"
  by (induction ds) auto

lemma delete_first_unique:
  assumes "distinct (map f ds)" and "\<And>d. P d \<longleftrightarrow> f d = x"
  shows "\<not> list_ex P (delete_first P ds)"
  using assms(1)
proof (induction ds)
  case Nil
  then show ?case by simp
next
  case (Cons d ds)
  show ?case
  proof (cases "P d")
    case True
    with Cons.prems assms(2) have "\<forall>e \<in> set ds. \<not> P e"
      by (metis distinct.simps(2) image_eqI list.simps(9) set_map)
    with True show ?thesis
      by (simp add: list_ex_iff)
  next
    case False
    with Cons show ?thesis
      by simp
  qed
qed

text \<open>
  C8. For every RemoveDoc transaction the adapter issues a delete by identifier on the
  collection of the object's class and reports the empty result, whatever the store
  answers; on a collection with at most one document for an identifier, the delete
  goes through whether or not the document is there, no document with the identifier
  is left, and the same transaction applied again goes through and leaves the store as
  it is.
\<close>

theorem remove_twice:
  assumes "unique_ids (s (getDomain h (objectClass tx)))"
  shows "\<exists>c s1.
           txRemoveDoc h tx = Inr c \<and>
           collection c = getDomain h (objectClass tx) \<and>
           operation c = DeleteOne (JObj [(''_id'', JStr (objectId tx))]) \<and>
           (\<forall>answer. tx_result (reply c) answer = Inr (JObj [])) \<and>
           run c s = Some s1 \<and>
           \<not> list_ex (matches_id (JStr (objectId tx))) (s1 (collection c)) \<and>
           (\<not> list_ex (matches_id (JStr (objectId tx))) (s (collection c)) \<longrightarrow> s1 = s) \<and>
           run c s1 = Some s1"
proof -
  let ?d = "getDomain h (objectClass tx)"
  let ?P = "matches_id (JStr (objectId tx))"
  let ?c = "\<lparr>collection = ?d, operation = DeleteOne (id_filter (objectId tx)),
            reply = Empty_result\<rparr>"
  let ?s1 = "s(?d := delete_first ?P (s ?d))"
  have c: "txRemoveDoc h tx = Inr ?c"
    by (simp add: txRemoveDoc_def)
  have r: "run ?c s = Some ?s1"
    by (simp add: run_def id_filter_def)
  have gone: "\<not> list_ex ?P (delete_first ?P (s ?d))"
    using assms by (intro delete_first_unique [where f = "\<lambda>doc. map_of doc ''_id''"])
      (simp_all add: unique_ids_def matches_id_def)
  then have again: "run ?c ?s1 = Some ?s1"
    by (simp add: run_def id_filter_def delete_first_none)
  have same: "?s1 = s" if "\<not> list_ex ?P (s ?d)"
    using that by (simp add: delete_first_none)
  from c r gone again same show ?thesis
    by (intro exI [of _ ?c] exI [of _ ?s1]) (simp add: id_filter_def)
qed

theorem remove_twice_witness:
  "unique_ids [[(''_id'', JStr ''o1''), (''_class'', JStr ''D1'')],
               [(''_id'', JStr ''o2''), (''_class'', JStr ''C'')]] \<and>
   txRemoveDoc sample_env
     \<lparr>objectId = ''o1'', objectClass = ''D1'', modifiedBy = ''me'', modifiedOn = 5\<rparr> =
     Inr \<lparr>collection = ''things'', operation = DeleteOne (JObj [(''_id'', JStr ''o1'')]),
          reply = Empty_result\<rparr> \<and>
   run_op (DeleteOne (JObj [(''_id'', JStr ''o1'')]))
     [[(''_id'', JStr ''o1''), (''_class'', JStr ''D1'')],
      [(''_id'', JStr ''o2''), (''_class'', JStr ''C'')]] =
     Some [[(''_id'', JStr ''o2''), (''_class'', JStr ''C'')]] \<and>
   run_op (DeleteOne (JObj [(''_id'', JStr ''o1'')]))
     [[(''_id'', JStr ''o2''), (''_class'', JStr ''C'')]] =
     Some [[(''_id'', JStr ''o2''), (''_class'', JStr ''C'')]]"
proof -
  let ?docs = "[[(''_id'', JStr ''o1''), (''_class'', JStr ''D1'')],
               [(''_id'', JStr ''o2''), (''_class'', JStr ''C'')]]"
  let ?s = "\<lambda>d. if d = ''things'' then ?docs else []"
  let ?tx = "\<lparr>objectId = ''o1'', objectClass = ''D1'', modifiedBy = ''me'', modifiedOn = 5\<rparr>"
  have u: "unique_ids ?docs"
    by (simp add: unique_ids_def)
  have d: "getDomain sample_env (objectClass ?tx) = ''things''"
    by (simp add: sample_env_def)
  from u d have "unique_ids (?s (getDomain sample_env (objectClass ?tx)))"
    by simp
  from remove_twice [of ?s sample_env ?tx, OF this] u show ?thesis
    by (simp add: txRemoveDoc_def sample_env_def id_filter_def matches_id_def)
qed
lemma split_acc_append:
  "split_acc c cur (a @ c # b) = split_acc c cur a @ split_acc c [] b"
  by (induction a arbitrary: cur) auto

lemma split_acc_plain: "c \<notin> set b \<Longrightarrow> split_acc c cur b = [rev cur @ b]"
  by (induction b arbitrary: cur) auto

lemma split_acc_not_Nil: "split_acc c cur a \<noteq> []"
  by (induction a arbitrary: cur) auto

lemma field_path_member:
  "CHR ''.'' \<notin> set name \<Longrightarrow> field_path (m @ ''.'' @ name) = field_path m @ [name]"
  by (simp add: field_path_def split_def split_acc_append split_acc_plain)

lemma field_path_not_Nil: "field_path m \<noteq> []"
  by (simp add: field_path_def split_def split_acc_not_Nil)

text \<open>A write below a path leaves the path in the document.\<close>

lemma set_path_exists:
  "set_path (p @ [f]) v doc = Some doc' \<Longrightarrow> p \<noteq> [] \<Longrightarrow> path_exists p doc'"
proof (induction p arbitrary: doc doc')
  case Nil
  then show ?case by simp
next
  case (Cons k ks)
  show ?case
  proof (cases ks)
    case Nil
    with Cons.prems show ?thesis
      by (auto simp: map_of_obj_set split: option.splits jv.splits)
  next
    case (Cons k' ks')
    with Cons.prems Cons.IH show ?thesis
      by (auto simp: map_of_obj_set split: option.splits jv.splits)
  qed
qed

lemma path_exists_obj_set:
  assumes "path_exists p doc" and "p \<noteq> []" and "hd p \<noteq> k"
  shows "path_exists p (obj_set doc k v)"
proof (cases p)
  case Nil
  with assms show ?thesis by simp
next
  case (Cons a q)
  with assms show ?thesis
    by (cases q) (auto simp: map_of_obj_set)
qed

text \<open>
  C6. For every MixinUpdate transaction whose plain attribute map is empty, the update
  the adapter submits still sets one field under the mixin, the placeholder
  \<^verbatim>\<open>__mixin\<close>, beside the stamp; a document the store has updated with it passes the test
  that the mixin key exists.
\<close>

theorem empty_mixin_placeholder:
  assumes "attributes tx = []" and "\<not> isOperator h []"
  shows "txMixin h tx =
           Inr \<lparr>collection = getDomain h (objectClass tx),
                operation = UpdateOne (JObj [(''_id'', JStr (objectId tx))])
                  (JObj [(''$set'', JObj [
                     (mixin tx @ ''.'' @ ''__mixin'', JStr ''true''),
                     (''modifiedBy'', JStr (modifiedBy tx)),
                     (''modifiedOn'', JNum (modifiedOn tx))])]),
                reply = Driver_result\<rparr> \<and>
         (\<forall>doc doc'.
            apply_update (JObj [(''$set'', JObj [
                     (mixin tx @ ''.'' @ ''__mixin'', JStr ''true''),
                     (''modifiedBy'', JStr (modifiedBy tx)),
                     (''modifiedOn'', JNum (modifiedOn tx))])]) doc = Some doc' \<longrightarrow>
            field_exists (mixin tx) doc')"
proof -
  let ?m = "mixin tx"
  let ?p = "field_path ?m"
  have ne: "?m @ ''.'' @ ''__mixin'' \<noteq> ''modifiedBy''" "?m @ ''.'' @ ''__mixin'' \<noteq> ''modifiedOn''"
  proof -
    have "CHR ''.'' \<in> set (?m @ ''.'' @ ''__mixin'')"
      by simp
    moreover have "CHR ''.'' \<notin> set ''modifiedBy''" "CHR ''.'' \<notin> set ''modifiedOn''"
      by simp_all
    ultimately show "?m @ ''.'' @ ''__mixin'' \<noteq> ''modifiedBy''"
      "?m @ ''.'' @ ''__mixin'' \<noteq> ''modifiedOn''"
      by metis+
  qed
  from assms ne have call: "txMixin h tx =
           Inr \<lparr>collection = getDomain h (objectClass tx),
                operation = UpdateOne (JObj [(''_id'', JStr (objectId tx))])
                  (JObj [(''$set'', JObj [
                     (?m @ ''.'' @ ''__mixin'', JStr ''true''),
                     (''modifiedBy'', JStr (modifiedBy tx)),
                     (''modifiedOn'', JNum (modifiedOn tx))])]),
                reply = Driver_result\<rparr>"
    by (simp add: txMixin_def placeholder_def id_filter_def)
  have path: "field_path (?m @ ''.__mixin'') = ?p @ [''__mixin'']"
    using field_path_member [of "''__mixin''" ?m] by simp
  have stamps: "field_path ''modifiedBy'' = [''modifiedBy'']" "field_path ''modifiedOn'' = [''modifiedOn'']"
    by (simp_all add: field_path_def split_def)
  have "field_exists ?m doc'"
    if upd: "apply_update (JObj [(''$set'', JObj [
                     (?m @ ''.'' @ ''__mixin'', JStr ''true''),
                     (''modifiedBy'', JStr (modifiedBy tx)),
                     (''modifiedOn'', JNum (modifiedOn tx))])]) doc = Some doc'"
    for doc doc'
  proof -
    from upd have ok: "paths_ok [?p @ [''__mixin''], [''modifiedBy''], [''modifiedOn'']]"
      and sets: "set_fields [(?m @ ''.'' @ ''__mixin'', JStr ''true''),
                     (''modifiedBy'', JStr (modifiedBy tx)),
                     (''modifiedOn'', JNum (modifiedOn tx))] doc = Some doc'"
      by (simp_all add: path stamps split: if_splits)
    from sets obtain d1 where d1: "set_path (?p @ [''__mixin'']) (JStr ''true'') doc = Some d1"
      and doc': "doc' = obj_set (obj_set d1 ''modifiedBy'' (JStr (modifiedBy tx)))
                          ''modifiedOn'' (JNum (modifiedOn tx))"
      by (auto simp: path stamps split: option.splits)
    from ok have hd: "hd ?p \<noteq> ''modifiedBy''" "hd ?p \<noteq> ''modifiedOn''"
      using field_path_not_Nil [of ?m]
      by (cases ?p; simp add: paths_ok_def path_ok_def)+
    from set_path_exists [OF d1 field_path_not_Nil] have "path_exists ?p d1" .
    with hd field_path_not_Nil show ?thesis
      by (simp add: field_exists_def doc' path_exists_obj_set)
  qed
  with call show ?thesis
    by blast
qed

theorem empty_mixin_placeholder_witness:
  "attributes \<lparr>objectId = ''o1'', objectClass = ''D1'', modifiedBy = ''me'', modifiedOn = 5,
      mixin = ''M'', attributes = []\<rparr> = [] \<and>
   \<not> isOperator sample_env [] \<and>
   txMixin sample_env
     \<lparr>objectId = ''o1'', objectClass = ''D1'', modifiedBy = ''me'', modifiedOn = 5,
      mixin = ''M'', attributes = []\<rparr> =
     Inr \<lparr>collection = ''things'',
          operation = UpdateOne (JObj [(''_id'', JStr ''o1'')])
            (JObj [(''$set'', JObj [(''M.__mixin'', JStr ''true''),
                                   (''modifiedBy'', JStr ''me''), (''modifiedOn'', JNum 5)])]),
          reply = Driver_result\<rparr> \<and>
   apply_update (JObj [(''$set'', JObj [(''M.__mixin'', JStr ''true''),
                                   (''modifiedBy'', JStr ''me''), (''modifiedOn'', JNum 5)])])
     [(''_id'', JStr ''o1''), (''_class'', JStr ''D1'')] =
     Some [(''_id'', JStr ''o1''), (''_class'', JStr ''D1''),
           (''M'', JObj [(''__mixin'', JStr ''true'')]),
           (''modifiedBy'', JStr ''me''), (''modifiedOn'', JNum 5)] \<and>
   field_exists ''M'' [(''_id'', JStr ''o1''), (''_class'', JStr ''D1''),
           (''M'', JObj [(''__mixin'', JStr ''true'')]),
           (''modifiedBy'', JStr ''me''), (''modifiedOn'', JNum 5)]"
proof -
  let ?tx = "\<lparr>objectId = ''o1'', objectClass = ''D1'', modifiedBy = ''me'', modifiedOn = 5,
      mixin = ''M'', attributes = []\<rparr>"
  have a: "attributes ?tx = []"
    by simp
  have b: "\<not> isOperator sample_env []"
    by (simp add: sample_env_def isOperator_prefix_def)
  have u: "apply_update (JObj [(''$set'', JObj [(''M.__mixin'', JStr ''true''),
                                   (''modifiedBy'', JStr ''me''), (''modifiedOn'', JNum 5)])])
     [(''_id'', JStr ''o1''), (''_class'', JStr ''D1'')] =
     Some [(''_id'', JStr ''o1''), (''_class'', JStr ''D1''),
           (''M'', JObj [(''__mixin'', JStr ''true'')]),
           (''modifiedBy'', JStr ''me''), (''modifiedOn'', JNum 5)]"
    by (simp add: field_path_def split_def paths_ok_def path_ok_def)
  from empty_mixin_placeholder [OF a b] a b u show ?thesis
    by (simp add: sample_env_def)
qed

section \<open>Properties of the lookups\<close>











section \<open>Properties of the pattern match\<close>

lemma join_Cons: "join (p # ps) sep = (if ps = [] then p else p @ sep @ join ps sep)"
  by (cases ps) simp_all

text \<open>Splitting at a character and joining with a string replaces each occurrence of
  the character by the string.\<close>

lemma join_split_acc:
  "join (split_acc c cur s) sep =
     rev cur @ concat (map (\<lambda>x. if x = c then sep else [x]) s)"
  by (induction s arbitrary: cur) (simp_all add: join_Cons split_acc_not_Nil)

lemma like_regex_replaces:
  "like_regex p = ''^'' @ concat (map (\<lambda>x. if x = CHR ''%'' then ''.*'' else [x]) p) @ ''$''"
  by (simp add: like_regex_def split_def join_split_acc)

lemma like_example_regex: "like_regex ''ab%cd'' = ''^ab.*cd$''"
  by (simp add: like_regex_replaces)

lemma like_example_match: "regex_test ''^ab.*cd$'' ''abXYZcd'' = Some True"
  by code_simp

lemma like_example_no_match: "regex_test ''^ab.*cd$'' ''abXYZcde'' = Some False"
  by code_simp

lemma like_example_case: "regex_test ''^ab.*cd$'' ''ABxyzCD'' = Some True"
  by code_simp

text \<open>The pattern is put into the expression as it is: a character that is special in
  a regular expression keeps its special meaning there, and the expression is then
  outside the part whose meaning is written out above.\<close>

lemma like_not_escaped:
  "like_regex ''ab|cd'' = ''^ab|cd$'' \<and> regex_test (like_regex ''ab|cd'') ''ab|cd'' = None"
  by code_simp

text \<open>For a pattern of plain characters and \<^verbatim>\<open>%\<close>, on an ASCII value without line feed,
  the regular expression of the translation matches as the pattern does.\<close>

declare match_here.simps [simp del] match_star.simps [simp del]

lemma match_here_end: "match_here ''$'' text = (text = [] \<or> text = [CHR 0x0A])"
  by (subst match_here.simps) simp

lemma match_here_star: "match_here (r # CHR ''*'' # re) text = match_star r re text"
  by (subst match_here.simps) simp

lemma match_here_char:
  "r' \<noteq> CHR ''*'' \<Longrightarrow>
   match_here (r # r' # re) text =
     (case text of [] \<Rightarrow> False | t # ts \<Rightarrow> char_matches r t \<and> match_here (r' # re) ts)"
  by (subst match_here.simps) simp

lemma match_star_any:
  assumes "\<And>text. CHR 0x0A \<notin> set text \<Longrightarrow> match_here re text = like_match p text"
    and "CHR 0x0A \<notin> set text"
  shows "match_star (CHR ''.'') re text = like_match (CHR ''%'' # p) text"
  using assms(2)
proof (induction "text")
  case Nil
  with assms(1) [of "[]"] show ?case
    by (subst match_star.simps) simp
next
  case (Cons t ts)
  with assms(1) [of "t # ts"] show ?case
    by (subst match_star.simps) (auto simp: char_matches_def)
qed

lemma plain_char_not_special:
  "plain_char c \<Longrightarrow> c \<noteq> CHR ''.'' \<and> c \<noteq> CHR ''*'' \<and> c \<noteq> CHR ''$'' \<and> c \<noteq> CHR ''^''"
  by (auto simp: plain_char_def)

lemma like_body_hd:
  "plain_pattern p \<Longrightarrow>
   \<exists>r re. concat (map (\<lambda>x. if x = CHR ''%'' then ''.*'' else [x]) p) @ ''$'' = r # re \<and>
          r \<noteq> CHR ''*''"
  by (cases p) (auto simp: plain_pattern_def dest: plain_char_not_special)

lemma like_body_supported:
  "plain_pattern p \<Longrightarrow>
   supported_body (concat (map (\<lambda>x. if x = CHR ''%'' then ''.*'' else [x]) p) @ ''$'')"
proof (induction p)
  case Nil
  then show ?case by simp
next
  case (Cons c p)
  from Cons.prems have plain: "plain_pattern p"
    by (simp add: plain_pattern_def)
  show ?case
  proof (cases "c = CHR ''%''")
    case True
    with Cons.IH [OF plain] show ?thesis
      by (simp add: regex_atom_def)
  next
    case False
    with Cons.prems have c: "plain_char c"
      by (simp add: plain_pattern_def)
    from like_body_hd [OF plain] obtain r re where
      "concat (map (\<lambda>x. if x = CHR ''%'' then ''.*'' else [x]) p) @ ''$'' = r # re" "r \<noteq> CHR ''*''"
      by blast
    with Cons.IH [OF plain] False c show ?thesis
      by (simp add: regex_atom_def)
  qed
qed

lemma match_here_like:
  assumes "plain_pattern p" and "CHR 0x0A \<notin> set text"
  shows "match_here (concat (map (\<lambda>x. if x = CHR ''%'' then ''.*'' else [x]) p) @ ''$'') text =
         like_match p text"
  using assms
proof (induction p arbitrary: "text")
  case Nil
  then show ?case
    by (cases "text") (auto simp: match_here_end)
next
  case (Cons c p)
  from Cons.prems(1) have plain: "plain_pattern p"
    by (simp add: plain_pattern_def)
  let ?re = "concat (map (\<lambda>x. if x = CHR ''%'' then ''.*'' else [x]) p) @ ''$''"
  show ?case
  proof (cases "c = CHR ''%''")
    case True
    have "match_star (CHR ''.'') ?re text = like_match (CHR ''%'' # p) text"
      using Cons.IH [OF plain] Cons.prems(2) by (rule match_star_any)
    with True show ?thesis
      by (simp add: match_here_star)
  next
    case False
    from like_body_hd [OF plain] obtain r re where re: "?re = r # re" "r \<noteq> CHR ''*''"
      by blast
    from Cons.prems(1) False have c: "c \<noteq> CHR ''.''"
      by (auto simp: plain_pattern_def dest: plain_char_not_special)
    show ?thesis
    proof (cases "text")
      case Nil
      with False re show ?thesis
        by (simp add: match_here_char)
    next
      case (Cons t ts)
      with Cons.prems(2) have "CHR 0x0A \<notin> set ts"
        by simp
      from Cons.IH [OF plain this] False re c Cons show ?thesis
        by (simp add: match_here_char char_matches_def)
    qed
  qed
qed

lemma like_regex_is_like:
  assumes "plain_pattern p" and "ascii text" and "CHR 0x0A \<notin> set text"
  shows "regex_test (like_regex p) text = Some (like_match p text)"
  using match_here_like [OF assms(1,3)] like_body_supported [OF assms(1)] assms(2)
  by (simp add: like_regex_replaces regex_test_def)

text \<open>The class field is overwritten after the loop when its translated value has no
  \<^verbatim>\<open>$in\<close>: a pattern on the class field is lost.\<close>

lemma class_like_overwritten:
  "translateQuery sample_env ''C'' [(''_class'', JObj [(''$like'', JStr ''D%'')])] =
     Inr (JObj [(''_class'', JObj [(''$in'', JArr [JStr ''C'', JStr ''D1'', JStr ''D2''])])])"
  by (simp add: translateQuery_def translate_value_def class_in_def obj_prop_def sample_env_def
      assign_def empty_object_def value_of_def like_regex_replaces)

text \<open>A value under the key \<^verbatim>\<open>__proto__\<close> of a filter parsed from JSON is translated and
  then becomes the prototype of the translated filter, which has no own property of
  that name.\<close>

lemma proto_like_not_own:
  "translateQuery sample_env ''C'' [(''__proto__'', JObj [(''$like'', JStr ''a%'')])] =
     Inr (JProto (JObj [(''$regex'', JStr ''^a.*$''), (''$options'', JStr ''i'')])
            [(''_class'', JObj [(''$in'', JArr [JStr ''C'', JStr ''D1'', JStr ''D2''])])])"
  by (simp add: translateQuery_def translate_value_def class_in_def obj_prop_def sample_env_def
      assign_def empty_object_def value_of_def like_regex_replaces)

text \<open>
  C4. The specification speaks of a filter field whose value has the sole key \<^verbatim>\<open>$like\<close>, all
  other object values passing through unchanged. The code looks at the first key: a
  value whose first key is \<^verbatim>\<open>$like\<close> is replaced by the regular expression whatever its
  other keys, which are dropped. The filter \<^verbatim>\<open>{ name: { $like: 'a%', $in: ['ab'] } }\<close>:
  the value of \<^verbatim>\<open>name\<close> is an object with two keys, and it does not pass through
  unchanged.
\<close>

theorem like_first_key_counterexample:
  "own_keys (JObj [(''$like'', JStr ''a%''), (''$in'', JArr [JStr ''ab''])]) = [''$like'', ''$in''] \<and>
   translateQuery sample_env ''C''
     [(''name'', JObj [(''$like'', JStr ''a%''), (''$in'', JArr [JStr ''ab''])])] =
     Inr (JObj [(''name'', JObj [(''$regex'', JStr ''^a.*$''), (''$options'', JStr ''i'')]),
          (''_class'', JObj [(''$in'', JArr [JStr ''C'', JStr ''D1'', JStr ''D2''])])]) \<and>
   JObj [(''$regex'', JStr ''^a.*$''), (''$options'', JStr ''i'')] \<noteq>
     JObj [(''$like'', JStr ''a%''), (''$in'', JArr [JStr ''ab''])]"
  by (simp add: translateQuery_def translate_value_def class_in_def obj_prop_def sample_env_def
      assign_def empty_object_def value_of_def like_regex_replaces)

text \<open>
  C4, as amended. For every field of the filter other than the class field, the key
  \<^verbatim>\<open>__proto__\<close> and the key of a requested mixin class: a value whose first key is \<^verbatim>\<open>$like\<close>,
  with a pattern string \<^verbatim>\<open>p\<close>, is translated to an object with the option \<^verbatim>\<open>i\<close> and the
  expression made of \<^verbatim>\<open>^\<close>, then \<^verbatim>\<open>p\<close> with each \<^verbatim>\<open>%\<close> replaced by \<^verbatim>\<open>.*\<close>, then \<^verbatim>\<open>$\<close>, whatever
  other keys the value has; every value whose first key is not \<^verbatim>\<open>$like\<close> passes through
  unchanged. The pattern is put in unescaped, so what the expression matches is stated
  only for a pattern of \<^verbatim>\<open>%\<close> and printable ASCII characters that are not special in a
  regular expression: on every ASCII value without a line feed, that expression matches,
  ignoring case, exactly when the whole value matches the pattern, \<^verbatim>\<open>%\<close> standing for any
  run of characters. The expression for \<^verbatim>\<open>ab%cd\<close> matches \<^verbatim>\<open>abXYZcd\<close> and does not match
  \<^verbatim>\<open>abXYZcde\<close>.
\<close>

theorem like_translation:
  assumes "translateQuery h clazz query = Inr translated"
    and "map_of query field = Some v"
    and "field \<noteq> ''_class''"
    and "field \<noteq> ''__proto__''"
    and "field \<noteq> clazz \<or> getBaseClass h clazz = clazz"
  shows "(\<forall>p others. v = JObj ((''$like'', JStr p) # others) \<longrightarrow>
            js_get translated field =
              Inr (JObj [(''$regex'',
                      JStr (''^'' @ concat (map (\<lambda>x. if x = CHR ''%'' then ''.*'' else [x]) p) @ ''$'')),
                    (''$options'', JStr ''i'')]) \<and>
            (plain_pattern p \<longrightarrow>
               (\<forall>s. ascii s \<and> CHR 0x0A \<notin> set s \<longrightarrow>
                  regex_test (''^'' @ concat (map (\<lambda>x. if x = CHR ''%'' then ''.*'' else [x]) p) @ ''$'') s =
                    Some (like_match p s)))) \<and>
         (first_key (own_keys v) \<noteq> Some ''$like'' \<longrightarrow> js_get translated field = Inr v) \<and>
         like_regex ''ab%cd'' = ''^ab.*cd$'' \<and>
         regex_test ''^ab.*cd$'' ''abXYZcd'' = Some True \<and>
         regex_test ''^ab.*cd$'' ''abXYZcde'' = Some False"
proof -
  from assms(1) obtain t :: built where loop: "translate_loop query (map fst query) empty_object = Inr t"
    by (auto simp: translateQuery_def split: sum.splits)
  from assms(2) have "field \<in> set (map fst query)"
    by (auto dest: map_of_SomeD intro: rev_image_eqI)
  moreover from assms(2) have "obj_prop query field = v"
    by (simp add: obj_prop_def)
  ultimately obtain v' where tv: "translate_value v = Inr v'" and own: "map_of (own t) field = Some v'"
    using translate_loop_prop [OF loop, of field] assms(4) by auto
  from assms(1,3,5) loop obtain t2 :: built where
    t2: "translated = value_of t2" "map_of (own t2) field = map_of (own t) field"
    by (auto simp: translateQuery_def Let_def map_of_own_assign_other split: if_splits)
  from t2 own have get: "js_get translated field = Inr v'"
    by (simp add: js_get_value_of_own)
  have "js_get translated field =
      Inr (JObj [(''$regex'',
              JStr (''^'' @ concat (map (\<lambda>x. if x = CHR ''%'' then ''.*'' else [x]) p) @ ''$'')),
            (''$options'', JStr ''i'')])"
    if "v = JObj ((''$like'', JStr p) # others)" for p others
  proof -
    from that have "translate_value v =
        Inr (JObj [(''$regex'',
              JStr (''^'' @ concat (map (\<lambda>x. if x = CHR ''%'' then ''.*'' else [x]) p) @ ''$'')),
            (''$options'', JStr ''i'')])"
      by (simp add: translate_value_def obj_prop_def like_regex_replaces)
    with tv get show ?thesis
      by simp
  qed
  moreover have "regex_test (''^'' @ concat (map (\<lambda>x. if x = CHR ''%'' then ''.*'' else [x]) p) @ ''$'') s =
      Some (like_match p s)"
    if "plain_pattern p" and "ascii s \<and> CHR 0x0A \<notin> set s" for p s
    using like_regex_is_like [of p s] that by (simp add: like_regex_replaces)
  moreover have "js_get translated field = Inr v" if "first_key (own_keys v) \<noteq> Some ''$like''"
    using tv that by (simp add: get translate_value_def)
  ultimately show ?thesis
    using like_example_regex like_example_match like_example_no_match by blast
qed

theorem like_translation_witness:
  "translateQuery sample_env ''C''
     [(''name'', JObj [(''$like'', JStr ''ab%cd'')]), (''size'', JObj [(''$gt'', JNum 3)])] =
     Inr (JObj [(''name'', JObj [(''$regex'', JStr ''^ab.*cd$''), (''$options'', JStr ''i'')]),
          (''size'', JObj [(''$gt'', JNum 3)]),
          (''_class'', JObj [(''$in'', JArr [JStr ''C'', JStr ''D1'', JStr ''D2''])])]) \<and>
   js_get (JObj [(''name'', JObj [(''$regex'', JStr ''^ab.*cd$''), (''$options'', JStr ''i'')]),
          (''size'', JObj [(''$gt'', JNum 3)]),
          (''_class'', JObj [(''$in'', JArr [JStr ''C'', JStr ''D1'', JStr ''D2''])])]) ''name'' =
     Inr (JObj [(''$regex'', JStr ''^ab.*cd$''), (''$options'', JStr ''i'')]) \<and>
   plain_pattern ''ab%cd'' \<and> ascii ''abXYZcd'' \<and> CHR 0x0A \<notin> set ''abXYZcd'' \<and>
   regex_test ''^ab.*cd$'' ''abXYZcd'' = Some (like_match ''ab%cd'' ''abXYZcd'') \<and>
   like_match ''ab%cd'' ''abXYZcd'' \<and>
   regex_test ''^ab.*cd$'' ''abXYZcde'' = Some False"
proof -
  let ?query = "[(''name'', JObj [(''$like'', JStr ''ab%cd'')]), (''size'', JObj [(''$gt'', JNum 3)])]"
  let ?translated = "JObj [(''name'', JObj [(''$regex'', JStr ''^ab.*cd$''), (''$options'', JStr ''i'')]),
          (''size'', JObj [(''$gt'', JNum 3)]),
          (''_class'', JObj [(''$in'', JArr [JStr ''C'', JStr ''D1'', JStr ''D2''])])]"
  have a: "translateQuery sample_env ''C'' ?query = Inr ?translated"
    by (simp add: translateQuery_def translate_value_def class_in_def obj_prop_def sample_env_def
        assign_def empty_object_def value_of_def like_regex_replaces)
  have b: "map_of ?query ''name'' = Some (JObj [(''$like'', JStr ''ab%cd'')])"
    by simp
  have c: "''name'' \<noteq> ''_class''"
    by simp
  have d: "''name'' \<noteq> ''__proto__''"
    by simp
  have e: "''name'' \<noteq> ''C'' \<or> getBaseClass sample_env ''C'' = ''C''"
    by simp
  have f: "plain_pattern ''ab%cd''"
    by code_simp
  have g: "ascii ''abXYZcd'' \<and> CHR 0x0A \<notin> set ''abXYZcd''"
    by code_simp
  have m: "like_match ''ab%cd'' ''abXYZcd''"
    by code_simp
  from like_translation [OF a b c d e]
  have "js_get ?translated ''name'' =
          Inr (JObj [(''$regex'', JStr ''^ab.*cd$''), (''$options'', JStr ''i'')]) \<and>
        (plain_pattern ''ab%cd'' \<longrightarrow>
           (\<forall>s. ascii s \<and> CHR 0x0A \<notin> set s \<longrightarrow>
              regex_test ''^ab.*cd$'' s = Some (like_match ''ab%cd'' s)))"
    and "regex_test ''^ab.*cd$'' ''abXYZcde'' = Some False"
    by simp_all
  with a f g m show ?thesis
    by (simp del: js_get.simps)
qed

end
